theory Spec2Isabelle
  imports Complex_Main "HOL-Library.Char_ord" "HOL-Library.List_Lexorder"
    "HOL-Library.Product_Lexorder"
begin

section \<open>csv2html: pass percentages per key, rendered as a Google Charts page\<close>

text \<open>
  The program is one Python file, \<^verbatim>\<open>src/csv2html.py\<close>, with two functions:
  \<^verbatim>\<open>create_google_charts_html\<close> (aggregation, HTML generation, file write) and
  \<^verbatim>\<open>main\<close> (argument handling, CSV loading, column validation).

  The embedding follows the file top to bottom. What pandas, numpy, the file system and
  the Python built-ins do is written out where the program depends on it:
  \<^item> a frame has typed columns, as \<^verbatim>\<open>pd.read_csv\<close> makes them: text (dtype object, a
    cell is a string or missing), int64, float64 and bool;
  \<^item> strings are byte lists, ordered as Python orders them (lexicographically by code
    point, which on UTF-8 bytes is the byte order);
  \<^item> a float64 is \<open>NaN\<close>, an infinity, or a finite double given by its exact rational
    value; every arithmetic result is rounded to the nearest double, ties to even;
  \<^item> \<^verbatim>\<open>repr\<close> of a string and of a float, and \<^verbatim>\<open>pd.read_csv\<close>, are parameters.
\<close>

subsection \<open>Floats\<close>

datatype fval = Fin rat | PInf | NInf | NaN

text \<open>The number of binary digits of a positive integer.\<close>

function bits :: "int \<Rightarrow> nat" where
  "bits n = (if n \<le> 0 then 0 else Suc (bits (n div 2)))"
  by pat_completeness auto
termination
  by (relation "measure nat") auto

declare bits.simps [simp del]

text \<open>For \<open>q > 0\<close>, the exponent \<open>e\<close> with \<open>2^e \<le> q < 2^(e+1)\<close>.\<close>

definition exponent :: "rat \<Rightarrow> int" where
  "exponent q =
     (let k = int (bits (fst (quotient_of q))) - int (bits (snd (quotient_of q)))
      in if 2 powi k \<le> q then k else k - 1)"

text \<open>Rounding to the nearest integer, a tie going to the even one.\<close>

definition round_half_even :: "rat \<Rightarrow> int" where
  "round_half_even x =
     (let f = \<lfloor>x\<rfloor>; r = x - of_int f
      in if r < 1 / 2 then f else if 1 / 2 < r then f + 1
         else if even f then f else f + 1)"

text \<open>
  Rounding to float64: 53 significant binary digits. The exponent range of float64 is not
  modelled, so there is no overflow to an infinity and no gradual underflow: the numbers
  rounded here are counts of rows, which are int64, their quotients and percentages, and
  int64 keys, all far from the limits \<open>2^-1022\<close> and \<open>2^1024\<close>.
\<close>

definition round_double :: "rat \<Rightarrow> rat" where
  "round_double q =
     (if q = 0 then 0
      else let u = 2 powi (exponent \<bar>q\<bar> - 52)
           in sgn q * of_int (round_half_even (\<bar>q\<bar> / u)) * u)"

text \<open>An int64 as float64.\<close>

definition to_float :: "int \<Rightarrow> rat" where
  "to_float i = round_double (of_int i)"

text \<open>\<^verbatim>\<open>a / b\<close> on numpy floats: no exception, \<open>0/0\<close> is \<open>NaN\<close>, \<open>x/0\<close> is infinite.\<close>

definition true_div :: "rat \<Rightarrow> rat \<Rightarrow> fval" where
  "true_div a b =
     (if b = 0 then (if a = 0 then NaN else if 0 < a then PInf else NInf)
      else Fin (round_double (a / b)))"

text \<open>\<^verbatim>\<open>x * 100\<close> on a float.\<close>

fun times100 :: "fval \<Rightarrow> fval" where
  "times100 (Fin q) = Fin (round_double (q * 100))"
| "times100 PInf = PInf"
| "times100 NInf = NInf"
| "times100 NaN = NaN"

text \<open>\<^verbatim>\<open>.fillna(0)\<close> on a float and on a count that alignment may have left missing.\<close>

fun fillna0 :: "fval \<Rightarrow> fval" where
  "fillna0 NaN = Fin 0"
| "fillna0 v = v"

fun fillna0_count :: "nat option \<Rightarrow> nat" where
  "fillna0_count None = 0"
| "fillna0_count (Some n) = n"

text \<open>Line 28 for one group: \<^verbatim>\<open>(passes / total * 100).fillna(0)\<close>, computed in float64.\<close>

definition percentage_of :: "nat \<Rightarrow> nat \<Rightarrow> fval" where
  "percentage_of pas tot =
     fillna0 (times100 (true_div (to_float (int pas)) (to_float (int tot))))"

subsection \<open>String operations\<close>

text \<open>
  \<^verbatim>\<open>str.lower()\<close>, on bytes: the ASCII capitals go to their small letters. The program
  only compares the result with \<^verbatim>\<open>'pass'\<close>, and no character outside ASCII has
  \<open>p\<close>, \<open>a\<close> or \<open>s\<close> as its lower case, so the comparison is the one Python makes.
\<close>

definition lower_char :: "char \<Rightarrow> char" where
  "lower_char c =
     (if CHR ''A'' \<le> c \<and> c \<le> CHR ''Z'' then char_of (of_char c + (32::nat)) else c)"

definition lower :: "string \<Rightarrow> string" where
  "lower s = map lower_char s"

text \<open>\<^verbatim>\<open>Series.str.lower()\<close> leaves a missing value missing.\<close>

definition str_lower :: "string option \<Rightarrow> string option" where
  "str_lower v = map_option lower v"

text \<open>The mask \<^verbatim>\<open>df[col].str.lower() == 'pass'\<close>, at one cell of a text column.\<close>

definition pass_mask :: "string option \<Rightarrow> bool" where
  "pass_mask v = (str_lower v = Some ''pass'')"

text \<open>\<^verbatim>\<open>col.replace(' ', '_')\<close>.\<close>

definition replace_space :: "string \<Rightarrow> string" where
  "replace_space s = map (\<lambda>c. if c = CHR '' '' then CHR ''_'' else c) s"

subsection \<open>Frames\<close>

text \<open>
  A column has one kind of cell. \<^verbatim>\<open>pd.read_csv\<close> gives a column of numbers the dtype
  int64, or float64 when a cell is empty or not whole; a column of \<open>True\<close>/\<open>False\<close>
  the dtype bool, or object with an empty cell missing; any other column the dtype
  object, its cells strings or missing; a column whose cells are all empty is float64,
  every cell \<open>NaN\<close>. A column gives the cell of each row label.
\<close>

datatype error = KeyError string | AttributeError string | ValueError string

datatype column =
    ObjectCol "nat \<Rightarrow> string option"
  | Int64Col "nat \<Rightarrow> int"
  | Float64Col "nat \<Rightarrow> fval"
  | BoolCol "nat \<Rightarrow> bool option"

text \<open>A frame: the labels of its rows, top to bottom, and its named columns.\<close>

record dataframe =
  index :: "nat list"
  series :: "(string \<times> column) list"

definition columns :: "dataframe \<Rightarrow> string list" where
  "columns df = map fst (series df)"

text \<open>
  A value of a key column. Keys of one column are of one kind and are ordered as pandas
  orders them: strings as Python strings, numbers by value, \<open>False\<close> before \<open>True\<close>.
  How keys of different kinds compare plays no role.
\<close>

datatype keyval = KStr string | KInt int | KFloat fval | KBool bool

fun key_rank :: "keyval \<Rightarrow> nat \<times> rat \<times> string" where
  "key_rank (KStr s) = (0, 0, s)"
| "key_rank (KInt i) = (1, of_int i, [])"
| "key_rank (KFloat NInf) = (2, 0, [])"
| "key_rank (KFloat (Fin q)) = (3, q, [])"
| "key_rank (KFloat PInf) = (4, 0, [])"
| "key_rank (KFloat NaN) = (5, 0, [])"
| "key_rank (KBool b) = (6, (if b then 1 else 0), [])"

instantiation keyval :: linorder
begin

definition less_eq_keyval :: "keyval \<Rightarrow> keyval \<Rightarrow> bool" where
  "less_eq_keyval a b \<longleftrightarrow> key_rank a \<le> key_rank b"

definition less_keyval :: "keyval \<Rightarrow> keyval \<Rightarrow> bool" where
  "less_keyval a b \<longleftrightarrow> key_rank a < key_rank b"

instance
proof
  fix x y z :: keyval
  show "(x < y) = (x \<le> y \<and> \<not> y \<le> x)"
    unfolding less_eq_keyval_def less_keyval_def by (rule less_le_not_le)
  show "x \<le> x" unfolding less_eq_keyval_def by simp
  show "x \<le> y \<Longrightarrow> y \<le> z \<Longrightarrow> x \<le> z"
    unfolding less_eq_keyval_def by (rule order_trans)
  show "x \<le> y \<or> y \<le> x" unfolding less_eq_keyval_def by (rule linear)
  have inj: "key_rank a = key_rank b \<Longrightarrow> a = b" for a b
    by (induction a rule: key_rank.induct; induction b rule: key_rank.induct)
       (simp_all split: if_splits)
  show "x \<le> y \<Longrightarrow> y \<le> x \<Longrightarrow> x = y"
    unfolding less_eq_keyval_def by (rule inj) (rule antisym)
qed

end

text \<open>The cell of a column at a row, as a group key: a missing cell is no key.\<close>

fun key_at :: "column \<Rightarrow> nat \<Rightarrow> keyval option" where
  "key_at (ObjectCol f) i = map_option KStr (f i)"
| "key_at (Int64Col f) i = Some (KInt (f i))"
| "key_at (Float64Col f) i = (if f i = NaN then None else Some (KFloat (f i)))"
| "key_at (BoolCol f) i = map_option KBool (f i)"

text \<open>\<^verbatim>\<open>notna\<close>: what \<^verbatim>\<open>.count()\<close> counts.\<close>

fun notna :: "column \<Rightarrow> nat \<Rightarrow> bool" where
  "notna (ObjectCol f) i = (f i \<noteq> None)"
| "notna (Int64Col f) i = True"
| "notna (Float64Col f) i = (f i \<noteq> NaN)"
| "notna (BoolCol f) i = (f i \<noteq> None)"

text \<open>The cells of a named column, row by row.\<close>

definition key_cell :: "dataframe \<Rightarrow> string \<Rightarrow> nat \<Rightarrow> keyval option" where
  "key_cell df name i = (case map_of (series df) name of None \<Rightarrow> None | Some c \<Rightarrow> key_at c i)"

definition notna_cell :: "dataframe \<Rightarrow> string \<Rightarrow> nat \<Rightarrow> bool" where
  "notna_cell df name i = (case map_of (series df) name of None \<Rightarrow> False | Some c \<Rightarrow> notna c i)"

text \<open>
  The \<^verbatim>\<open>.str\<close> accessor exists on a text column only; on a column of numbers or of
  booleans it raises \<open>AttributeError\<close>.
\<close>

definition is_text :: "dataframe \<Rightarrow> string \<Rightarrow> bool" where
  "is_text df name = (case map_of (series df) name of Some (ObjectCol f) \<Rightarrow> True | _ \<Rightarrow> False)"

definition text_cell :: "dataframe \<Rightarrow> string \<Rightarrow> nat \<Rightarrow> string option" where
  "text_cell df name i = (case map_of (series df) name of Some (ObjectCol f) \<Rightarrow> f i | _ \<Rightarrow> None)"

subsection \<open>Grouping and counting\<close>

text \<open>
  \<^verbatim>\<open>df.groupby(key)\<close> with its defaults \<^verbatim>\<open>sort=True, dropna=True\<close>: the group keys
  are the distinct values of the key column that are not missing, in ascending order.
\<close>

definition group_keys :: "dataframe \<Rightarrow> string \<Rightarrow> keyval list" where
  "group_keys df key = sort (remdups (List.map_filter (key_cell df key) (index df)))"

text \<open>\<^verbatim>\<open>.count()\<close> of one group: the rows of the group whose \<open>col\<close> is not missing.\<close>

definition group_count :: "dataframe \<Rightarrow> string \<Rightarrow> string \<Rightarrow> keyval \<Rightarrow> nat" where
  "group_count df key col k =
     length (filter (\<lambda>i. key_cell df key i = Some k \<and> notna_cell df col i) (index df))"

text \<open>
  \<^verbatim>\<open>df.groupby(key)[col].count()\<close>: a series indexed by the group keys. Grouping by a
  name that is no column raises \<open>KeyError\<close>, and so does selecting one.
\<close>

definition groupby_count :: "dataframe \<Rightarrow> string \<Rightarrow> string \<Rightarrow> error + (keyval \<times> nat) list" where
  "groupby_count df key col =
     (if key \<notin> set (columns df) then Inl (KeyError key)
      else if col \<notin> set (columns df) then Inl (KeyError (''Column not found: '' @ col))
      else Inr (map (\<lambda>k. (k, group_count df key col k)) (group_keys df key)))"

text \<open>
  Line 22, \<^verbatim>\<open>df[df[col].str.lower() == 'pass']\<close>: the rows where the mask holds, with
  their labels; \<open>AttributeError\<close> when the data column is not a text column.
\<close>

definition filter_pass :: "dataframe \<Rightarrow> string \<Rightarrow> error + dataframe" where
  "filter_pass df col =
     (if col \<notin> set (columns df) then Inl (KeyError col)
      else if \<not> is_text df col
      then Inl (AttributeError ''Can only use .str accessor with string values!'')
      else Inr (df\<lparr>index := filter (\<lambda>i. pass_mask (text_cell df col i)) (index df)\<rparr>))"

subsection \<open>The summary of one data column\<close>

record group_summary =
  gkey :: keyval
  total :: nat
  passes :: nat
  percentage :: fval

text \<open>
  \<^verbatim>\<open>pd.DataFrame({'total': total, 'passes': passes})\<close> aligns the two series on the
  sorted union of their indexes; a key one series lacks gets a missing value there.
\<close>

definition union_index :: "(keyval \<times> nat) list \<Rightarrow> (keyval \<times> nat) list \<Rightarrow> keyval list" where
  "union_index t p = sort (remdups (map fst t @ map fst p))"

text \<open>
  Lines 25 and 28: the aligned frame with \<^verbatim>\<open>.fillna(0)\<close>, then the percentage column
  \<^verbatim>\<open>(passes / total * 100).fillna(0)\<close>.
\<close>

definition summary_row :: "(keyval \<times> nat) list \<Rightarrow> (keyval \<times> nat) list \<Rightarrow> keyval \<Rightarrow> group_summary" where
  "summary_row t p k =
     (let tot = fillna0_count (map_of t k);
          pas = fillna0_count (map_of p k)
      in \<lparr>gkey = k, total = tot, passes = pas, percentage = percentage_of pas tot\<rparr>)"

definition summary_df :: "dataframe \<Rightarrow> string \<Rightarrow> string \<Rightarrow> error + group_summary list" where
  "summary_df df key_column col =
     (case groupby_count df key_column col of
        Inl e \<Rightarrow> Inl e
      | Inr t \<Rightarrow>
          (case filter_pass df col of
             Inl e \<Rightarrow> Inl e
           | Inr passed \<Rightarrow>
               (case groupby_count passed key_column col of
                  Inl e \<Rightarrow> Inl e
                | Inr p \<Rightarrow> Inr (map (summary_row t p) (union_index t p)))))"

text \<open>
  A value of the emitted list. \<^verbatim>\<open>.values\<close> of the frame of keys and percentages has one
  dtype: float64 when the keys are numbers, so an int64 key comes out as a float;
  object otherwise, so a string or bool key comes out as it is.
\<close>

datatype pyval = PStr string | PFloat fval | PBool bool

fun emit_key :: "keyval \<Rightarrow> pyval" where
  "emit_key (KStr s) = PStr s"
| "emit_key (KInt i) = PFloat (Fin (to_float i))"
| "emit_key (KFloat v) = PFloat v"
| "emit_key (KBool b) = PBool b"

text \<open>
  Lines 32 to 34: the header row, then the percentage column of the summary through
  \<^verbatim>\<open>.reset_index().values.tolist()\<close>. \<^verbatim>\<open>reset_index\<close> inserts
  the index as a column named after the key column, and raises \<open>ValueError\<close> when a
  column of that name is already there, which is the case for a key column called
  \<^verbatim>\<open>percentage\<close>.
\<close>

definition data_list :: "dataframe \<Rightarrow> string \<Rightarrow> string \<Rightarrow> error + pyval list list" where
  "data_list df key_column col =
     (case summary_df df key_column col of
        Inl e \<Rightarrow> Inl e
      | Inr s \<Rightarrow>
          if key_column = ''percentage''
          then Inl (ValueError ''cannot insert percentage, already exists'')
          else Inr ([PStr key_column, PStr ''Pass Percentage'']
                    # map (\<lambda>g. [emit_key (gkey g), PFloat (percentage g)]) s))"

subsection \<open>Text of the page\<close>

text \<open>
  \<^verbatim>\<open>repr\<close> of a string and of a float are Python's own; the program reaches them
  through \<^verbatim>\<open>str\<close> of a list.
\<close>

record builtins =
  repr_str :: "string \<Rightarrow> string"
  repr_float :: "fval \<Rightarrow> string"

fun repr_val :: "builtins \<Rightarrow> pyval \<Rightarrow> string" where
  "repr_val B (PStr s) = repr_str B s"
| "repr_val B (PFloat v) = repr_float B v"
| "repr_val B (PBool b) = (if b then ''True'' else ''False'')"

text \<open>\<^verbatim>\<open>sep.join(xs)\<close>.\<close>

fun join :: "string \<Rightarrow> string list \<Rightarrow> string" where
  "join sep [] = []"
| "join sep [x] = x"
| "join sep (x # y # ys) = x @ sep @ join sep (y # ys)"

text \<open>\<^verbatim>\<open>str\<close> of a list whose elements are shown by \<open>f\<close>.\<close>

definition str_list :: "('a \<Rightarrow> string) \<Rightarrow> 'a list \<Rightarrow> string" where
  "str_list f xs = ''['' @ join '', '' (map f xs) @ '']''"

definition str_data :: "builtins \<Rightarrow> pyval list list \<Rightarrow> string" where
  "str_data B d = str_list (str_list (repr_val B)) d"

text \<open>\<^verbatim>\<open>str(i)\<close> of a list position: its decimal digits.\<close>

definition digit_char :: "nat \<Rightarrow> char" where
  "digit_char d = char_of (48 + d)"

fun str_nat :: "nat \<Rightarrow> string" where
  "str_nat n = (if n < 10 then [digit_char n] else str_nat (n div 10) @ [digit_char (n mod 10)])"

declare str_nat.simps [simp del]

definition quoted :: "string \<Rightarrow> string" where
  "quoted s = CHR 0x27 # s @ [CHR 0x27]"

text \<open>Lines 38 to 46.\<close>

definition html_head :: string where
  \<open>html_head = concat [
    ''\<newline>'',
    ''<html>\<newline>'',
    ''<head>\<newline>'',
    ''    <title>CSV Data Charts</title>\<newline>'',
    ''    <!-- Load Google Charts library -->\<newline>'',
    ''    <script type="text/javascript" src="https://www.gstatic.com/charts/loader.js"></script>\<newline>'',
    ''    <script type="text/javascript">\<newline>'',
    ''      google.charts.load('current', {'packages':['corechart', 'bar']});\<newline>'']\<close>

text \<open>Line 51: \<^verbatim>\<open>f"chart_div_{i}"\<close>.\<close>

definition chart_id :: "nat \<Rightarrow> string" where
  "chart_id i = ''chart_div_'' @ str_nat i"

text \<open>The name of the drawing function, lines 55 and 57.\<close>

definition draw_name :: "string \<Rightarrow> string" where
  "draw_name col = ''draw_'' @ replace_space col @ ''_Chart''"

text \<open>The last two lines of a chart's block, lines 75 to 77: the directive and its target.\<close>

definition draw_directive :: "string \<Rightarrow> string" where
  \<open>draw_directive cid = concat [
    ''        var chart = new google.visualization.BarChart(document.getElementById('',
      quoted cid, ''));\<newline>'',
    ''        chart.draw(data, options);\<newline>'',
    ''      }\<newline>'']\<close>

text \<open>Lines 54 to 78: the block added for one data column.\<close>

definition chart_script :: "string \<Rightarrow> string \<Rightarrow> string \<Rightarrow> string \<Rightarrow> string" where
  \<open>chart_script key_column col cid data_array_string = concat [
    ''\<newline>'',
    ''      google.charts.setOnLoadCallback('', draw_name col, '');\<newline>'',
    ''\<newline>'',
    ''      function '', draw_name col, ''() {\<newline>'',
    ''        var data = google.visualization.arrayToDataTable('', data_array_string, '');\<newline>'',
    ''\<newline>'',
    ''        var options = {\<newline>'',
    ''          title: '', quoted (''Pass Percentage for '' @ col), '',\<newline>'',
    ''          chartArea: {width: '60%'},\<newline>'',
    ''          hAxis: {\<newline>'',
    ''            title: 'Pass Percentage',\<newline>'',
    ''            minValue: 0,\<newline>'',
    ''            maxValue: 100\<newline>'',
    ''          },\<newline>'',
    ''          vAxis: {\<newline>'',
    ''            title: '', quoted key_column, ''\<newline>'',
    ''          },\<newline>'',
    ''          bars: 'horizontal',\<newline>'',
    ''          legend: { position: "none" }\<newline>'',
    ''        };\<newline>'',
    ''\<newline>'',
    draw_directive cid]\<close>

text \<open>Lines 80 to 99.\<close>

definition html_style :: string where
  \<open>html_style = concat [
    ''\<newline>'',
    ''    </script>\<newline>'',
    ''    <style>\<newline>'',
    ''        body { font-family: -apple-system, BlinkMacSystemFont, 'Segoe UI', Roboto, Helvetica, Arial, sans-serif; padding: 20px; }\<newline>'',
    ''        .chart-container { \<newline>'',
    ''            width: 90%; \<newline>'',
    ''            max-width: 800px;\<newline>'',
    ''            height: 400px; \<newline>'',
    ''            margin: 40px auto;\<newline>'',
    ''            border: 1px solid #ddd;\<newline>'',
    ''            border-radius: 8px;\<newline>'',
    ''            padding: 10px;\<newline>'',
    ''            box-shadow: 0 2px 4px rgba(0,0,0,0.1);\<newline>'',
    ''        }\<newline>'',
    ''        h1 { text-align: center; color: #333; }\<newline>'',
    ''    </style>\<newline>'',
    ''</head>\<newline>'',
    ''<body>\<newline>'',
    ''    <h1>Data Analysis Report</h1>\<newline>'']\<close>

text \<open>Line 105: the container of one chart.\<close>

definition chart_div :: "string \<Rightarrow> string" where
  \<open>chart_div cid = ''<div id="'' @ cid @ ''" class="chart-container"></div>\<newline>''\<close>

text \<open>Lines 107 to 110.\<close>

definition html_tail :: string where
  \<open>html_tail = concat [
    ''\<newline>'',
    ''</body>\<newline>'',
    ''</html>\<newline>'']\<close>

subsection \<open>The world the program runs in\<close>

text \<open>
  The files by path, the two output streams line by line, and what the operating system
  answers when a path is opened for writing: \<open>unwritable w path = Some reason\<close> when
  \<^verbatim>\<open>open(path, 'w')\<close> raises \<open>OSError\<close> (no such directory, permission denied) with
  that text.
\<close>

record world =
  files :: "string \<rightharpoonup> string"
  unwritable :: "string \<rightharpoonup> string"
  stdout :: "string list"
  stderr :: "string list"

datatype outcome = Returned world | SysExit nat world | Raised error world

text \<open>The exit status of the process: an exception nobody catches ends it with 1.\<close>

fun exit_code :: "outcome \<Rightarrow> nat" where
  "exit_code (Returned w) = 0"
| "exit_code (SysExit n w) = n"
| "exit_code (Raised e w) = 1"

fun world_of :: "outcome \<Rightarrow> world" where
  "world_of (Returned w) = w"
| "world_of (SysExit n w) = w"
| "world_of (Raised e w) = w"

definition print_out :: "string \<Rightarrow> world \<Rightarrow> world" where
  "print_out line w = w\<lparr>stdout := stdout w @ [line]\<rparr>"

definition print_err :: "string \<Rightarrow> world \<Rightarrow> world" where
  "print_err line w = w\<lparr>stderr := stderr w @ [line]\<rparr>"

text \<open>\<^verbatim>\<open>with open(path, 'w') as f: f.write(content)\<close>: the \<open>OSError\<close> text, or the new world.\<close>

definition write_file :: "string \<Rightarrow> string \<Rightarrow> world \<Rightarrow> string + world" where
  "write_file path content w =
     (case unwritable w path of
        Some reason \<Rightarrow> Inl reason
      | None \<Rightarrow> Inr (w\<lparr>files := (files w)(path \<mapsto> content)\<rparr>))"

subsection \<open>\<^verbatim>\<open>create_google_charts_html\<close>\<close>

text \<open>Lines 17 to 34: the dictionary \<^verbatim>\<open>chart_data\<close>, filled column by column.\<close>

fun chart_data_loop ::
  "dataframe \<Rightarrow> string \<Rightarrow> string list \<Rightarrow> (string \<rightharpoonup> pyval list list)
    \<Rightarrow> error + (string \<rightharpoonup> pyval list list)" where
  "chart_data_loop df key_column [] chart_data = Inr chart_data"
| "chart_data_loop df key_column (col # cols) chart_data =
     (case data_list df key_column col of
        Inl e \<Rightarrow> Inl e
      | Inr d \<Rightarrow> chart_data_loop df key_column cols (chart_data(col \<mapsto> d)))"

text \<open>
  Lines 50 to 78: \<^verbatim>\<open>for i, col in enumerate(data_columns)\<close>, adding one block to
  \<^verbatim>\<open>html_content\<close> at each turn. \<^verbatim>\<open>chart_data[col]\<close> raises \<open>KeyError\<close> on a missing key.
\<close>

fun script_loop ::
  "builtins \<Rightarrow> (string \<rightharpoonup> pyval list list) \<Rightarrow> string \<Rightarrow> nat \<Rightarrow> string list \<Rightarrow> string
    \<Rightarrow> error + string" where
  "script_loop B chart_data key_column i [] html_content = Inr html_content"
| "script_loop B chart_data key_column i (col # cols) html_content =
     (case chart_data col of
        None \<Rightarrow> Inl (KeyError col)
      | Some d \<Rightarrow>
          script_loop B chart_data key_column (Suc i) cols
            (html_content @ chart_script key_column col (chart_id i) (str_data B d)))"

text \<open>Lines 103 to 105: the second \<^verbatim>\<open>enumerate\<close> loop, one container at each turn.\<close>

fun div_loop :: "nat \<Rightarrow> string list \<Rightarrow> string \<Rightarrow> string" where
  "div_loop i [] html_content = html_content"
| "div_loop i (col # cols) html_content =
     div_loop (Suc i) cols (html_content @ chart_div (chart_id i))"

text \<open>Lines 36 to 110: the text of the page, or the exception raised on the way.\<close>

definition build_html ::
  "builtins \<Rightarrow> dataframe \<Rightarrow> string \<Rightarrow> string list \<Rightarrow> error + string" where
  "build_html B df key_column data_columns =
     (case chart_data_loop df key_column data_columns Map.empty of
        Inl e \<Rightarrow> Inl e
      | Inr chart_data \<Rightarrow>
          (case script_loop B chart_data key_column 0 data_columns html_head of
             Inl e \<Rightarrow> Inl e
           | Inr html_content \<Rightarrow>
               Inr (div_loop 0 data_columns (html_content @ html_style) @ html_tail)))"

definition ok_mark :: string where
  "ok_mark = [CHR 0xE2, CHR 0x9C, CHR 0x85]"

definition err_mark :: string where
  "err_mark = [CHR 0xE2, CHR 0x9D, CHR 0x8C]"

text \<open>Lines 113 to 119: the write, with the \<^verbatim>\<open>except IOError\<close> branch.\<close>

definition create_google_charts_html ::
  "builtins \<Rightarrow> dataframe \<Rightarrow> string \<Rightarrow> string list \<Rightarrow> string \<Rightarrow> world \<Rightarrow> outcome" where
  "create_google_charts_html B df key_column data_columns output_file w =
     (case build_html B df key_column data_columns of
        Inl e \<Rightarrow> Raised e w
      | Inr html_content \<Rightarrow>
          (case write_file output_file html_content w of
             Inr w' \<Rightarrow>
               Returned (print_out (ok_mark @ '' Successfully generated chart file: '' @ output_file) w')
           | Inl e \<Rightarrow>
               SysExit 1
                 (print_err (err_mark @ '' Error writing to file '' @ output_file @ '': '' @ e) w)))"

subsection \<open>\<^verbatim>\<open>main\<close>\<close>

text \<open>The parsed command line: three positionals and \<^verbatim>\<open>-o/--output\<close>.\<close>

record args =
  arg_csv_file :: string
  arg_key_column :: string
  arg_data_columns :: "string list"
  arg_output :: string

text \<open>What \<^verbatim>\<open>pd.read_csv\<close> does: a frame, \<open>FileNotFoundError\<close>, or another exception.\<close>

datatype read_result = Parsed dataframe | FileNotFound | ReadFailed string

text \<open>Lines 146 to 150: the first required column that the frame lacks ends the run.\<close>

fun check_columns :: "builtins \<Rightarrow> dataframe \<Rightarrow> string list \<Rightarrow> world \<Rightarrow> outcome" where
  "check_columns B df [] w = Returned w"
| "check_columns B df (col # cols) w =
     (if col \<notin> set (columns df)
      then SysExit 1
             (print_err (''Available columns are: '' @ str_list (repr_str B) (columns df))
               (print_err (err_mark @ '' Error: Column '' @ quoted col
                            @ '' not found in the CSV file.'') w))
      else check_columns B df cols w)"

definition main ::
  "builtins \<Rightarrow> (world \<Rightarrow> string \<Rightarrow> read_result) \<Rightarrow> args \<Rightarrow> world \<Rightarrow> outcome" where
  "main B read_csv a w =
     (case read_csv w (arg_csv_file a) of
        FileNotFound \<Rightarrow>
          SysExit 1 (print_err (err_mark @ '' Error: The file '' @ quoted (arg_csv_file a)
                                 @ '' was not found.'') w)
      | ReadFailed e \<Rightarrow>
          SysExit 1 (print_err (err_mark @ '' Error reading or parsing CSV file: '' @ e) w)
      | Parsed df \<Rightarrow>
          (case check_columns B df (arg_key_column a # arg_data_columns a) w of
             Returned w' \<Rightarrow>
               create_google_charts_html B df (arg_key_column a) (arg_data_columns a)
                 (arg_output a) w'
           | other \<Rightarrow> other))"

subsection \<open>The order the specification describes\<close>

text \<open>
  The specification's wording for the order of the groups: the distinct key values in
  the order in which each first occurs, scanning the rows top to bottom. It is stated
  here to be compared with \<open>group_keys\<close>, which is what the program computes.
\<close>

definition first_seen_keys :: "dataframe \<Rightarrow> string \<Rightarrow> keyval list" where
  "first_seen_keys df key = rev (remdups (rev (List.map_filter (key_cell df key) (index df))))"

subsection \<open>Sample inputs\<close>

text \<open>The cells of a column, top to bottom, rows labelled from 0.\<close>

definition cells_of :: "'a list \<Rightarrow> 'a \<Rightarrow> nat \<Rightarrow> 'a" where
  "cells_of xs d i = (if i < length xs then xs ! i else d)"

definition text_column :: "string option list \<Rightarrow> column" where
  "text_column xs = ObjectCol (cells_of xs None)"

text \<open>The table of the specification's scenario: units A, A, B with pass, fail, pass.\<close>

definition example_df :: dataframe where
  "example_df = \<lparr>index = [0, 1, 2], series =
     [(''unit'', text_column [Some ''A'', Some ''A'', Some ''B'']),
      (''result'', text_column [Some ''pass'', Some ''fail'', Some ''pass''])]\<rparr>"

text \<open>Two units, the later one in the alphabet first.\<close>

definition order_df :: dataframe where
  "order_df = \<lparr>index = [0, 1], series =
     [(''unit'', text_column [Some ''B'', Some ''A'']),
      (''result'', text_column [Some ''pass'', Some ''fail''])]\<rparr>"

text \<open>A key column of whole numbers, 10 above 9: \<^verbatim>\<open>pd.read_csv\<close> makes it int64.\<close>

definition numeric_df :: dataframe where
  "numeric_df = \<lparr>index = [0, 1], series =
     [(''unit'', Int64Col (cells_of [10, 9] 0)),
      (''result'', text_column [Some ''pass'', Some ''fail''])]\<rparr>"

text \<open>One unit with two rows, the second with an empty \<open>result\<close> cell.\<close>

definition blank_df :: dataframe where
  "blank_df = \<lparr>index = [0, 1], series =
     [(''unit'', text_column [Some ''A'', Some ''A'']),
      (''result'', text_column [Some ''pass'', None])]\<rparr>"

text \<open>Two data columns; unit C has a value in \<open>r1\<close> and none in \<open>r2\<close>.\<close>

definition gap_df :: dataframe where
  "gap_df = \<lparr>index = [0, 1], series =
     [(''unit'', text_column [Some ''A'', Some ''C'']),
      (''r1'', text_column [Some ''pass'', Some ''pass'']),
      (''r2'', text_column [Some ''pass'', None])]\<rparr>"

text \<open>A data column whose cells are all empty: \<^verbatim>\<open>pd.read_csv\<close> makes it float64.\<close>

definition empty_col_df :: dataframe where
  "empty_col_df = \<lparr>index = [0, 1], series =
     [(''unit'', text_column [Some ''A'', Some ''B'']),
      (''result'', Float64Col (\<lambda>i. NaN))]\<rparr>"

text \<open>A key column that is called \<open>percentage\<close>.\<close>

definition percentage_df :: dataframe where
  "percentage_df = \<lparr>index = [0], series =
     [(''percentage'', text_column [Some ''A'']),
      (''result'', text_column [Some ''pass''])]\<rparr>"

text \<open>Two data columns whose names differ in a space against an underscore.\<close>

definition collide_df :: dataframe where
  "collide_df = \<lparr>index = [0], series =
     [(''unit'', text_column [Some ''A'']),
      (''a b'', text_column [Some ''pass'']),
      (''a_b'', text_column [Some ''fail''])]\<rparr>"

text \<open>
  Python's \<^verbatim>\<open>repr\<close> on the values of these samples: a string without quotes or
  escapes in single quotes, and the floats 0.0, 50.0 and 100.0.
\<close>

definition sample_builtins :: builtins where
  "sample_builtins = \<lparr>repr_str = quoted,
     repr_float = (\<lambda>v. if v = Fin 0 then ''0.0'' else if v = Fin 50 then ''50.0''
                        else if v = Fin 100 then ''100.0'' else ''nan'')\<rparr>"

text \<open>An empty disk where every path can be written, and one where \<open>out/charts.html\<close> cannot.\<close>

definition fresh_world :: world where
  "fresh_world = \<lparr>files = Map.empty, unwritable = Map.empty, stdout = [], stderr = []\<rparr>"

definition locked_world :: world where
  "locked_world = \<lparr>files = Map.empty,
     unwritable = [''out/charts.html'' \<mapsto>
       ''[Errno 2] No such file or directory: '' @ quoted ''out/charts.html''],
     stdout = [], stderr = []\<rparr>"

definition sample_args :: args where
  "sample_args = \<lparr>arg_csv_file = ''data.csv'', arg_key_column = ''unit'',
     arg_data_columns = [''result''], arg_output = ''out/charts.html''\<rparr>"

definition missing_args :: args where
  "missing_args = \<lparr>arg_csv_file = ''data.csv'', arg_key_column = ''unit'',
     arg_data_columns = [''result'', ''speed'', ''load''], arg_output = ''charts.html''\<rparr>"

section \<open>Properties\<close>

subsection \<open>Rounding to float64\<close>

lemma bits_pos: "0 < n \<Longrightarrow> 0 < bits n"
  by (subst bits.simps) simp

lemma bits_bounds: "0 < n \<Longrightarrow> 2 ^ (bits n - 1) \<le> n \<and> n < 2 ^ bits n"
proof (induction n rule: bits.induct)
  case (1 n)
  show ?case
  proof (cases "n div 2 \<le> 0")
    case True
    with 1 have n1: "n = 1" by simp
    have "bits 1 = Suc 0" by (simp add: bits.simps [of 1] bits.simps [of 0])
    with n1 show ?thesis by simp
  next
    case False
    then have h: "0 < n div 2" by simp
    with 1 have ih: "2 ^ (bits (n div 2) - 1) \<le> n div 2" "n div 2 < 2 ^ bits (n div 2)"
      by auto
    have b: "bits n = Suc (bits (n div 2))" using 1 by (subst bits.simps) simp
    from bits_pos [OF h] obtain m where m: "bits (n div 2) = Suc m" by (cases "bits (n div 2)") auto
    have "2 * 2 ^ m \<le> 2 * (n div 2)" using ih(1) m by simp
    also have "\<dots> \<le> n" by simp
    finally have lo: "2 ^ (bits n - 1) \<le> n" by (simp add: b m)
    have "n < 2 * (n div 2) + 2" by presburger
    also from ih(2) have "n div 2 + 1 \<le> 2 ^ bits (n div 2)" by simp
    then have "2 * (n div 2) + 2 \<le> 2 * 2 ^ bits (n div 2)" by simp
    finally have hi: "n < 2 ^ bits n" by (simp add: b)
    from lo hi show ?thesis by simp
  qed
qed

lemma powi_pos: "0 < (2::rat) powi k"
  by (simp add: zero_less_power_int)

lemma powi_Suc: "(2::rat) powi (k + 1) = 2 * 2 powi k"
  by (simp add: power_int_add)

lemma powi_mono: "j \<le> k \<Longrightarrow> (2::rat) powi j \<le> 2 powi k"
  by (rule power_int_increasing) simp_all

lemma powi_strict_mono: "j < k \<Longrightarrow> (2::rat) powi j < 2 powi k"
  by (rule power_int_strict_increasing) simp_all

lemma exponent_bounds:
  assumes "0 < q"
  shows "2 powi (exponent q) \<le> q" and "q < 2 powi (exponent q + 1)"
proof -
  obtain n d where nd: "quotient_of q = (n, d)" by (cases "quotient_of q")
  then have d: "0 < d" by (rule quotient_of_denom_pos)
  from nd have q: "q = of_int n / of_int d" by (rule quotient_of_div)
  with assms d have n: "0 < n" by (simp add: zero_less_divide_iff)
  define bn where "bn = bits n"
  define bd where "bd = bits d"
  define k where "k = int bn - int bd"
  from bits_bounds [of n] n have nb: "2 ^ (bn - 1) \<le> n" "n < 2 ^ bn"
    by (simp_all add: bn_def)
  from bits_bounds [of d] d have db: "2 ^ (bd - 1) \<le> d" "d < 2 ^ bd"
    by (simp_all add: bd_def)
  have bnp: "0 < bn" using bits_pos [of n] n by (simp add: bn_def)
  have bdp: "0 < bd" using bits_pos [of d] d by (simp add: bd_def)
  have nr: "(2::rat) ^ (bn - 1) \<le> of_int n" "(of_int n :: rat) < 2 ^ bn"
  proof -
    have "(of_int (2 ^ (bn - 1)) :: rat) \<le> of_int n" using nb(1) by (simp only: of_int_le_iff)
    then show "(2::rat) ^ (bn - 1) \<le> of_int n" by simp
    have "(of_int n :: rat) < of_int (2 ^ bn)" using nb(2) by (simp only: of_int_less_iff)
    then show "(of_int n :: rat) < 2 ^ bn" by simp
  qed
  have dr: "(2::rat) ^ (bd - 1) \<le> of_int d" "(of_int d :: rat) < 2 ^ bd"
  proof -
    have "(of_int (2 ^ (bd - 1)) :: rat) \<le> of_int d" using db(1) by (simp only: of_int_le_iff)
    then show "(2::rat) ^ (bd - 1) \<le> of_int d" by simp
    have "(of_int d :: rat) < of_int (2 ^ bd)" using db(2) by (simp only: of_int_less_iff)
    then show "(of_int d :: rat) < 2 ^ bd" by simp
  qed
  have dpos: "(0::rat) < of_int d" using d by simp
  have pk: "(2::rat) powi k = 2 ^ bn / 2 ^ bd"
    unfolding k_def by (simp add: power_int_diff)
  have hi: "q < 2 powi (k + 1)"
  proof -
    have "of_int n * (2::rat) ^ (bd - 1) < 2 ^ bn * of_int d"
    proof (rule mult_less_le_imp_less)
      show "(of_int n :: rat) < 2 ^ bn" by (rule nr(2))
      show "(2::rat) ^ (bd - 1) \<le> of_int d" by (rule dr(1))
      show "(0::rat) \<le> of_int n" using n by simp
      show "(0::rat) < 2 ^ (bd - 1)" by simp
    qed
    moreover have "(2::rat) ^ bd = 2 * 2 ^ (bd - 1)" using bdp by (cases bd) auto
    ultimately have "of_int n * (2::rat) ^ bd < 2 * 2 ^ bn * of_int d" by simp
    then have "of_int n / of_int d < 2 * ((2::rat) ^ bn / 2 ^ bd)"
      using dpos by (simp add: field_simps)
    then show ?thesis by (simp add: q powi_Suc pk)
  qed
  have lo: "2 powi (k - 1) \<le> q"
  proof -
    have "(2::rat) ^ (bn - 1) * of_int d \<le> of_int n * 2 ^ bd"
    proof (rule mult_mono)
      show "(2::rat) ^ (bn - 1) \<le> of_int n" by (rule nr(1))
      show "(of_int d :: rat) \<le> 2 ^ bd" by (rule less_imp_le [OF dr(2)])
      show "(0::rat) \<le> of_int n" using n by simp
      show "(0::rat) \<le> of_int d" using d by simp
    qed
    moreover have "(2::rat) ^ bn = 2 * 2 ^ (bn - 1)" using bnp by (cases bn) auto
    ultimately have "(2::rat) ^ bn * of_int d \<le> 2 * of_int n * 2 ^ bd" by simp
    then have "(2::rat) ^ bn / 2 ^ bd \<le> 2 * (of_int n / of_int d)"
      using dpos by (simp add: field_simps)
    moreover have "(2::rat) powi k = 2 * 2 powi (k - 1)" using powi_Suc [of "k - 1"] by simp
    ultimately show ?thesis by (simp add: q pk)
  qed
  have e: "exponent q = (if 2 powi k \<le> q then k else k - 1)"
    by (simp add: exponent_def nd k_def bn_def bd_def Let_def)
  show "2 powi (exponent q) \<le> q" using lo by (simp add: e)
  show "q < 2 powi (exponent q + 1)" using hi by (auto simp: e not_le)
qed

lemma exponent_unique:
  assumes "2 powi e \<le> q" "q < 2 powi (e + 1)"
  shows "exponent q = e"
proof -
  have q: "0 < q" by (rule less_le_trans [OF powi_pos assms(1)])
  note b = exponent_bounds [OF q]
  have "\<not> exponent q < e"
  proof
    assume "exponent q < e"
    then have "2 powi (exponent q + 1) \<le> (2::rat) powi e" by (intro powi_mono) simp
    with b(2) assms(1) show False by simp
  qed
  moreover have "\<not> e < exponent q"
  proof
    assume "e < exponent q"
    then have "2 powi (e + 1) \<le> (2::rat) powi (exponent q)" by (intro powi_mono) simp
    with b(1) assms(2) show False by simp
  qed
  ultimately show ?thesis by simp
qed

lemma exponent_mono:
  assumes "0 < x" "x \<le> y"
  shows "exponent x \<le> exponent y"
proof (rule ccontr)
  assume "\<not> exponent x \<le> exponent y"
  then have "2 powi (exponent y + 1) \<le> (2::rat) powi (exponent x)" by (intro powi_mono) simp
  moreover have "0 < y" using assms by simp
  ultimately show False
    using exponent_bounds(1) [OF assms(1)] exponent_bounds(2) [of y] assms(2) by simp
qed

lemma rhe_of_int: "round_half_even (of_int k) = k"
  by (simp add: round_half_even_def)

lemma rhe_lower: "\<lfloor>x\<rfloor> \<le> round_half_even x"
  by (simp add: round_half_even_def Let_def)

lemma rhe_upper: "round_half_even x \<le> \<lfloor>x\<rfloor> + 1"
  by (simp add: round_half_even_def Let_def)

lemma rhe_mono:
  assumes "x \<le> y"
  shows "round_half_even x \<le> round_half_even y"
proof (cases "\<lfloor>x\<rfloor> = \<lfloor>y\<rfloor>")
  case True
  with assms have "x - of_int \<lfloor>x\<rfloor> \<le> y - of_int \<lfloor>y\<rfloor>" by simp
  with True show ?thesis
    by (auto simp: round_half_even_def Let_def)
next
  case False
  with assms have "\<lfloor>x\<rfloor> < \<lfloor>y\<rfloor>" using floor_mono [OF assms] by simp
  then have "\<lfloor>x\<rfloor> + 1 \<le> \<lfloor>y\<rfloor>" by simp
  with rhe_upper [of x] rhe_lower [of y] show ?thesis by linarith
qed

lemma round_double_pos:
  "0 < q \<Longrightarrow> round_double q =
     of_int (round_half_even (q / 2 powi (exponent q - 52))) * 2 powi (exponent q - 52)"
  by (simp add: round_double_def Let_def)

lemma powi_split: "(2::rat) powi e = 2 ^ 52 * 2 powi (e - 52)"
proof -
  have "(2::rat) powi e = 2 powi (52 + (e - 52))" by simp
  also have "\<dots> = 2 powi 52 * 2 powi (e - 52)" by (subst power_int_add) simp_all
  finally show ?thesis by simp
qed

lemma round_double_bounds:
  assumes "0 < q"
  shows "2 powi (exponent q) \<le> round_double q" and "round_double q \<le> 2 powi (exponent q + 1)"
proof -
  define u where "u = (2::rat) powi (exponent q - 52)"
  have u: "0 < u" by (simp add: u_def powi_pos)
  note b = exponent_bounds [OF assms]
  have lo: "(2::rat) powi (exponent q) = 2 ^ 52 * u" unfolding u_def by (rule powi_split)
  have hi: "(2::rat) powi (exponent q + 1) = 2 ^ 53 * u"
  proof -
    have "(2::rat) powi (exponent q + 1) = 2 * 2 powi (exponent q)" by (rule powi_Suc)
    also have "\<dots> = 2 * (2 ^ 52 * u)" by (simp only: lo)
    also have "\<dots> = 2 ^ 53 * u" by simp
    finally show ?thesis .
  qed
  have "2 ^ 52 \<le> q / u" using b(1) u by (simp add: lo pos_le_divide_eq)
  from rhe_mono [OF this] have "round_half_even (of_int (2 ^ 52)) \<le> round_half_even (q / u)"
    by simp
  then have l: "2 ^ 52 \<le> round_half_even (q / u)" by (simp only: rhe_of_int)
  have "q / u \<le> 2 ^ 53" using b(2) u by (simp add: hi pos_divide_le_eq less_imp_le)
  from rhe_mono [OF this] have "round_half_even (q / u) \<le> round_half_even (of_int (2 ^ 53))"
    by simp
  then have h: "round_half_even (q / u) \<le> 2 ^ 53" by (simp only: rhe_of_int)
  have r: "round_double q = of_int (round_half_even (q / u)) * u"
    unfolding u_def by (rule round_double_pos [OF assms])
  have "(2::rat) ^ 52 * u \<le> of_int (round_half_even (q / u)) * u"
  proof (rule mult_right_mono)
    have "(of_int (2 ^ 52) :: rat) \<le> of_int (round_half_even (q / u))"
      using l by (simp only: of_int_le_iff)
    then show "(2::rat) ^ 52 \<le> of_int (round_half_even (q / u))" by simp
    show "0 \<le> u" using u by simp
  qed
  then show "2 powi (exponent q) \<le> round_double q" by (simp only: lo r)
  have "of_int (round_half_even (q / u)) * u \<le> (2::rat) ^ 53 * u"
  proof (rule mult_right_mono)
    have "(of_int (round_half_even (q / u)) :: rat) \<le> of_int (2 ^ 53)"
      using h by (simp only: of_int_le_iff)
    then show "(of_int (round_half_even (q / u)) :: rat) \<le> 2 ^ 53" by simp
    show "0 \<le> u" using u by simp
  qed
  then show "round_double q \<le> 2 powi (exponent q + 1)" by (simp only: hi r)
qed

lemma round_double_mono_pos:
  assumes "0 < x" "x \<le> y"
  shows "round_double x \<le> round_double y"
proof -
  have y: "0 < y" using assms by simp
  from exponent_mono [OF assms] consider "exponent x = exponent y" | "exponent x < exponent y"
    by linarith
  then show ?thesis
  proof cases
    case 1
    define u where "u = (2::rat) powi (exponent y - 52)"
    have u: "0 < u" by (simp add: u_def powi_pos)
    have "x / u \<le> y / u" using assms(2) u by (simp add: divide_right_mono)
    from rhe_mono [OF this]
    have "(of_int (round_half_even (x / u)) :: rat) \<le> of_int (round_half_even (y / u))"
      by (simp only: of_int_le_iff)
    then have "of_int (round_half_even (x / u)) * u \<le> of_int (round_half_even (y / u)) * u"
      using u by (intro mult_right_mono) simp_all
    then show ?thesis
      unfolding round_double_pos [OF assms(1)] round_double_pos [OF y] 1 u_def .
  next
    case 2
    then have "(2::rat) powi (exponent x + 1) \<le> 2 powi (exponent y)" by (intro powi_mono) simp
    with round_double_bounds(2) [OF assms(1)] round_double_bounds(1) [OF y]
    show ?thesis by linarith
  qed
qed

lemma round_double_zero: "round_double 0 = 0"
  by (simp add: round_double_def)

lemma round_double_nonneg: "0 \<le> q \<Longrightarrow> 0 \<le> round_double q"
proof (cases "q = 0")
  case True
  then show ?thesis by (simp add: round_double_zero)
next
  case False
  assume "0 \<le> q"
  with False have q: "0 < q" by simp
  from round_double_bounds(1) [OF q] powi_pos [of "exponent q"] show ?thesis by linarith
qed

lemma round_double_mono:
  assumes "0 \<le> x" "x \<le> y"
  shows "round_double x \<le> round_double y"
proof (cases "x = 0")
  case True
  with assms round_double_nonneg [of y] show ?thesis by (simp add: round_double_zero)
next
  case False
  with assms have "0 < x" by simp
  then show ?thesis using assms(2) by (rule round_double_mono_pos)
qed

lemma round_double_exact:
  assumes "2 powi e \<le> q" "q < 2 powi (e + 1)" "q = of_int m * 2 powi (e - 52)"
  shows "round_double q = q"
proof -
  have q: "0 < q" by (rule less_le_trans [OF powi_pos assms(1)])
  have e: "exponent q = e" by (rule exponent_unique [OF assms(1,2)])
  have u: "(2::rat) powi (e - 52) \<noteq> 0" using powi_pos [of "e - 52"] by simp
  have "q / 2 powi (e - 52) = of_int m" using assms(3) u by simp
  then show ?thesis
    unfolding round_double_pos [OF q] e by (simp add: rhe_of_int assms(3) [symmetric])
qed

lemma round_double_1: "round_double 1 = 1"
  by (rule round_double_exact [where e = 0 and m = "2 ^ 52"]) (simp_all add: power_int_minus)

lemma round_double_2: "round_double 2 = 2"
  by (rule round_double_exact [where e = 1 and m = "2 ^ 52"]) (simp_all add: power_int_minus)

lemma round_double_100: "round_double 100 = 100"
  by (rule round_double_exact [where e = 6 and m = "100 * 2 ^ 46"]) (simp_all add: power_int_minus)

lemma round_double_50: "round_double 50 = 50"
  by (rule round_double_exact [where e = 5 and m = "50 * 2 ^ 47"]) (simp_all add: power_int_minus)

lemma round_double_half: "round_double (1 / 2) = 1 / 2"
  by (rule round_double_exact [where e = "-1" and m = "2 ^ 52"]) (simp_all add: power_int_minus)

lemma to_float_nat:
  assumes "n < 2 ^ 53"
  shows "to_float (int n) = of_nat n"
proof (cases "n = 0")
  case True
  then show ?thesis by (simp add: to_float_def round_double_zero)
next
  case False
  define q :: rat where "q = of_nat n"
  have q: "0 < q" using False by (simp add: q_def)
  define e where "e = exponent q"
  note b = exponent_bounds [OF q, folded e_def]
  have "q < 2 powi 53" using assms unfolding q_def
    by (metis of_nat_less_iff of_nat_numeral of_nat_power power_int_numeral)
  with b(1) have lt: "(2::rat) powi e < 2 powi 53" by (rule le_less_trans)
  have e53: "e < 53"
  proof (rule ccontr)
    assume "\<not> e < 53"
    then have "53 \<le> e" by simp
    then have "(2::rat) powi 53 \<le> 2 powi e" by (rule powi_mono)
    from leD [OF this] lt show False ..
  qed
  have "(1::rat) \<le> q" using False by (simp add: q_def)
  then have "(2::rat) powi 0 \<le> q" by simp
  from this b(2) have lt0: "(2::rat) powi 0 < 2 powi (e + 1)" by (rule le_less_trans)
  have e0: "0 \<le> e"
  proof (rule ccontr)
    assume "\<not> 0 \<le> e"
    then have "e + 1 \<le> 0" by simp
    then have "(2::rat) powi (e + 1) \<le> 2 powi 0" by (rule powi_mono)
    from leD [OF this] lt0 show False ..
  qed
  define k where "k = nat (52 - e)"
  have ek: "e - 52 = - int k" using e53 by (simp add: k_def)
  have "q = of_int (int n * 2 ^ k) * 2 powi (e - 52)"
    unfolding ek by (simp add: q_def power_int_minus)
  from round_double_exact [OF b(1) b(2) this] show ?thesis
    by (simp add: to_float_def q_def)
qed

lemma to_float_0 [simp]: "to_float 0 = 0"
  by (simp add: to_float_def round_double_zero)

lemma to_float_ge1:
  assumes "0 < n"
  shows "1 \<le> to_float (int n)"
proof -
  have "round_double 1 \<le> round_double (of_nat n)"
    using assms by (intro round_double_mono) simp_all
  then show ?thesis by (simp add: to_float_def round_double_1)
qed

lemma to_float_mono_nat: "p \<le> t \<Longrightarrow> to_float (int p) \<le> to_float (int t)"
  unfolding to_float_def by (intro round_double_mono) simp_all

lemma to_float_nonneg: "0 \<le> to_float (int p)"
  unfolding to_float_def by (intro round_double_nonneg) simp

lemma percentage_bounds:
  assumes "p \<le> t"
  shows "\<exists>q. percentage_of p t = Fin q \<and> 0 \<le> q \<and> q \<le> 100"
proof (cases "t = 0")
  case True
  with assms show ?thesis by (simp add: percentage_of_def true_div_def)
next
  case False
  define rp where "rp = to_float (int p)"
  define rt where "rt = to_float (int t)"
  have rt: "1 \<le> rt" unfolding rt_def using False by (intro to_float_ge1) simp
  have rp: "0 \<le> rp" "rp \<le> rt" unfolding rp_def rt_def
    by (rule to_float_nonneg, rule to_float_mono_nat [OF assms])
  have r0: "0 \<le> rp / rt" using rp rt by simp
  have r1: "rp / rt \<le> 1" using rp rt by (simp add: divide_le_eq_1)
  define r where "r = round_double (rp / rt)"
  have "round_double (rp / rt) \<le> round_double 1" by (rule round_double_mono [OF r0 r1])
  then have rr1: "r \<le> 1" by (simp add: r_def round_double_1)
  have rr0: "0 \<le> r" unfolding r_def by (rule round_double_nonneg [OF r0])
  have s0: "0 \<le> r * 100" using rr0 by simp
  have "r * 100 \<le> 1 * 100" using rr1 by (intro mult_right_mono) simp_all
  then have s1: "r * 100 \<le> 100" by simp
  have "round_double (r * 100) \<le> round_double 100" by (rule round_double_mono [OF s0 s1])
  then have u: "round_double (r * 100) \<le> 100" by (simp add: round_double_100)
  have l: "0 \<le> round_double (r * 100)" by (rule round_double_nonneg [OF s0])
  have "rt \<noteq> 0" using rt by simp
  then have "percentage_of p t = Fin (round_double (r * 100))"
    by (simp add: percentage_of_def true_div_def rp_def [symmetric] rt_def [symmetric] r_def)
  with l u show ?thesis by simp
qed

lemma percentage_zero_total: "percentage_of 0 0 = Fin 0"
  by (simp add: percentage_of_def true_div_def)

lemma percentage_none: "percentage_of 0 t = Fin 0"
  by (simp add: percentage_of_def true_div_def round_double_zero)

lemma percentage_all:
  assumes "0 < n" "n < 2 ^ 53"
  shows "percentage_of n n = Fin 100"
  using assms by (simp add: percentage_of_def true_div_def to_float_nat [OF assms(2)]
      round_double_1 round_double_100)

lemma percentage_half: "percentage_of 1 2 = Fin 50"
proof -
  have 1: "to_float (int 1) = 1" using to_float_nat [of 1] by simp
  have 2: "to_float (int 2) = 2" using to_float_nat [of 2] by simp
  show ?thesis
    by (simp only: percentage_of_def 1 2 true_div_def)
       (simp add: round_double_half round_double_50)
qed

subsection \<open>Grouping\<close>

lemma set_map_filter_key:
  "set (List.map_filter f xs) = {k. \<exists>i\<in>set xs. f i = Some k}"
  by (induction xs) (auto simp: List.map_filter_simps split: option.splits)

lemma set_group_keys:
  "set (group_keys df key) = {k. \<exists>i\<in>set (index df). key_cell df key i = Some k}"
  by (simp add: group_keys_def set_map_filter_key)

lemma distinct_group_keys: "distinct (group_keys df key)"
  by (simp add: group_keys_def)

lemma sorted_group_keys: "sorted (group_keys df key)"
  by (simp add: group_keys_def)

lemma map_of_tabulate:
  "map_of (map (\<lambda>k. (k, f k)) ks) k = (if k \<in> set ks then Some (f k) else None)"
  by (induction ks) auto

lemma in_columns_iff: "name \<in> set (columns df) \<longleftrightarrow> map_of (series df) name \<noteq> None"
  by (simp add: columns_def map_of_eq_None_iff)

lemma is_text_in_columns: "is_text df col \<Longrightarrow> col \<in> set (columns df)"
  by (auto simp: is_text_def in_columns_iff split: option.splits)

lemma cells_reindex [simp]:
  "key_cell (df\<lparr>index := xs\<rparr>) = key_cell df"
  "notna_cell (df\<lparr>index := xs\<rparr>) = notna_cell df"
  "text_cell (df\<lparr>index := xs\<rparr>) = text_cell df"
  "is_text (df\<lparr>index := xs\<rparr>) = is_text df"
  "columns (df\<lparr>index := xs\<rparr>) = columns df"
  by (simp_all add: fun_eq_iff key_cell_def notna_cell_def text_cell_def is_text_def columns_def)

lemma pass_mask_notna: "pass_mask (text_cell df col i) \<Longrightarrow> notna_cell df col i"
  by (auto simp: pass_mask_def str_lower_def text_cell_def notna_cell_def
      split: option.splits column.splits)

lemma group_count_pass:
  "group_count (df\<lparr>index := filter (\<lambda>i. pass_mask (text_cell df col i)) (index df)\<rparr>) key col k =
     length (filter (\<lambda>i. key_cell df key i = Some k \<and> pass_mask (text_cell df col i)) (index df))"
proof -
  have "filter (\<lambda>i. key_cell df key i = Some k \<and> notna_cell df col i)
          (filter (\<lambda>i. pass_mask (text_cell df col i)) xs)
      = filter (\<lambda>i. key_cell df key i = Some k \<and> pass_mask (text_cell df col i)) xs" for xs
    by (induction xs) (auto dest: pass_mask_notna)
  then show ?thesis by (simp add: group_count_def)
qed

lemma group_count_zero:
  "k \<notin> set (group_keys df key) \<Longrightarrow> group_count df key col k = 0"
  by (auto simp: set_group_keys group_count_def filter_empty_conv)

lemma union_index_sub:
  assumes "sorted xs" "distinct xs" "set ys \<subseteq> set xs"
  shows "sort (remdups (xs @ ys)) = xs"
proof (rule sorted_distinct_set_unique)
  show "set (sort (remdups (xs @ ys))) = set xs" using assms by auto
qed (use assms in simp_all)

lemma summary_df_eq:
  assumes "key \<in> set (columns df)" "is_text df col"
  shows "summary_df df key col =
     Inr (map (\<lambda>k. \<lparr>gkey = k, total = group_count df key col k,
                    passes = length (filter (\<lambda>i. key_cell df key i = Some k
                                \<and> pass_mask (text_cell df col i)) (index df)),
                    percentage = percentage_of
                       (length (filter (\<lambda>i. key_cell df key i = Some k
                                \<and> pass_mask (text_cell df col i)) (index df)))
                       (group_count df key col k)\<rparr>)
            (group_keys df key))"
proof -
  let ?pf = "df\<lparr>index := filter (\<lambda>i. pass_mask (text_cell df col i)) (index df)\<rparr>"
  let ?pc = "\<lambda>k. length (filter (\<lambda>i. key_cell df key i = Some k
                                \<and> pass_mask (text_cell df col i)) (index df))"
  let ?t = "map (\<lambda>k. (k, group_count df key col k)) (group_keys df key)"
  let ?p = "map (\<lambda>k. (k, group_count ?pf key col k)) (group_keys ?pf key)"
  note c = is_text_in_columns [OF assms(2)]
  have sub: "set (group_keys ?pf key) \<subseteq> set (group_keys df key)"
    by (auto simp: set_group_keys)
  have ui: "union_index ?t ?p = group_keys df key"
    using union_index_sub [OF sorted_group_keys distinct_group_keys sub]
    by (simp add: union_index_def comp_def)
  have row: "summary_row ?t ?p k =
      \<lparr>gkey = k, total = group_count df key col k, passes = ?pc k,
       percentage = percentage_of (?pc k) (group_count df key col k)\<rparr>"
    if "k \<in> set (group_keys df key)" for k
  proof -
    have p: "fillna0_count (map_of ?p k) = ?pc k"
      using group_count_zero [of k ?pf key col] group_count_pass [of df col key k]
      by (simp add: map_of_tabulate)
    have t: "fillna0_count (map_of ?t k) = group_count df key col k"
      using that by (simp add: map_of_tabulate)
    show ?thesis unfolding summary_row_def Let_def p t ..
  qed
  have "summary_df df key col = Inr (map (summary_row ?t ?p) (union_index ?t ?p))"
    using assms c by (simp add: summary_df_def groupby_count_def filter_pass_def)
  also have "map (summary_row ?t ?p) (union_index ?t ?p) =
     map (\<lambda>k. \<lparr>gkey = k, total = group_count df key col k, passes = ?pc k,
       percentage = percentage_of (?pc k) (group_count df key col k)\<rparr>) (group_keys df key)"
    unfolding ui using row by (intro map_cong) auto
  finally show ?thesis .
qed

lemma summary_df_Inr_cols:
  "summary_df df key col = Inr s \<Longrightarrow> key \<in> set (columns df) \<and> is_text df col"
  by (auto simp: summary_df_def groupby_count_def filter_pass_def split: if_splits sum.splits)

lemma data_list_eq:
  assumes "key \<in> set (columns df)" "is_text df col" "key \<noteq> ''percentage''"
  shows "data_list df key col =
     Inr ([PStr key, PStr ''Pass Percentage'']
          # map (\<lambda>k. [emit_key k, PFloat (percentage_of
                       (length (filter (\<lambda>i. key_cell df key i = Some k
                                \<and> pass_mask (text_cell df col i)) (index df)))
                       (group_count df key col k))])
              (group_keys df key))"
  using assms by (simp add: data_list_def summary_df_eq comp_def)

lemma data_list_Inr_cols:
  "data_list df key col = Inr d \<Longrightarrow>
     key \<in> set (columns df) \<and> is_text df col \<and> key \<noteq> ''percentage''"
  by (auto simp: data_list_def dest: summary_df_Inr_cols split: sum.splits if_splits)

lemma pass_count_le:
  "length (filter (\<lambda>i. key_cell df key i = Some k \<and> pass_mask (text_cell df col i)) xs)
     \<le> length (filter (\<lambda>i. key_cell df key i = Some k \<and> notna_cell df col i) xs)"
proof -
  have eq: "filter (\<lambda>i. key_cell df key i = Some k \<and> pass_mask (text_cell df col i)) xs
     = filter (\<lambda>i. pass_mask (text_cell df col i))
         (filter (\<lambda>i. key_cell df key i = Some k \<and> notna_cell df col i) xs)"
    by (induction xs) (auto dest: pass_mask_notna)
  show ?thesis unfolding eq by (rule length_filter_le)
qed

lemma summary_member:
  assumes "summary_df df key col = Inr s" "g \<in> set s"
  shows "gkey g \<in> set (group_keys df key)"
    and "total g = group_count df key col (gkey g)"
    and "passes g = length (filter (\<lambda>i. key_cell df key i = Some (gkey g)
                                \<and> pass_mask (text_cell df col i)) (index df))"
    and "percentage g = percentage_of (passes g) (total g)"
proof -
  from assms(1) have c: "key \<in> set (columns df)" "is_text df col"
    by (auto dest: summary_df_Inr_cols)
  let ?pc = "\<lambda>k. length (filter (\<lambda>i. key_cell df key i = Some k
                                \<and> pass_mask (text_cell df col i)) (index df))"
  from assms summary_df_eq [OF c]
  have "g \<in> set (map (\<lambda>k. \<lparr>gkey = k, total = group_count df key col k, passes = ?pc k,
                    percentage = percentage_of (?pc k) (group_count df key col k)\<rparr>)
            (group_keys df key))" by simp
  then obtain k where k: "k \<in> set (group_keys df key)"
    and g: "g = \<lparr>gkey = k, total = group_count df key col k, passes = ?pc k,
                    percentage = percentage_of (?pc k) (group_count df key col k)\<rparr>"
    by auto
  show "gkey g \<in> set (group_keys df key)" using k g by simp
  show "total g = group_count df key col (gkey g)" using g by simp
  show "passes g = ?pc (gkey g)" using g by simp
  show "percentage g = percentage_of (passes g) (total g)" using g by simp
qed

lemma group_bounds:
  assumes "summary_df df key_column col = Inr s" and "g \<in> set s"
  shows "passes g \<le> total g"
    and "\<exists>q. percentage g = Fin q \<and> 0 \<le> q \<and> q \<le> 100"
    and "total g = 0 \<longrightarrow> percentage g = Fin 0"
proof -
  note m = summary_member [OF assms]
  show le: "passes g \<le> total g"
    unfolding m(2) m(3) group_count_def by (rule pass_count_le)
  show "\<exists>q. percentage g = Fin q \<and> 0 \<le> q \<and> q \<le> 100"
    unfolding m(4) by (rule percentage_bounds [OF le])
  show "total g = 0 \<longrightarrow> percentage g = Fin 0"
  proof
    assume t0: "total g = 0"
    with le have "passes g = 0" by simp
    with t0 m(4) show "percentage g = Fin 0" by (simp add: percentage_zero_total)
  qed
qed

lemma data_list_rows:
  assumes "data_list df key_column col = Inr d"
  shows "\<exists>s. summary_df df key_column col = Inr s
           \<and> d = [PStr key_column, PStr ''Pass Percentage'']
                 # map (\<lambda>g. [emit_key (gkey g), PFloat (percentage g)]) s"
  using assms by (auto simp: data_list_def split: sum.splits if_splits)

subsection \<open>The samples, evaluated\<close>

lemma percentage_samples:
  "percentage_of (Suc 0) (Suc (Suc 0)) = Fin 50"
  "percentage_of (Suc 0) (Suc 0) = Fin 100"
  "percentage_of 0 t = Fin 0"
proof -
  show "percentage_of (Suc 0) (Suc (Suc 0)) = Fin 50"
    using percentage_half by (simp add: numeral_2_eq_2)
  have "(1::nat) < 2 ^ 53" by simp
  from percentage_all [OF _ this] show "percentage_of (Suc 0) (Suc 0) = Fin 100" by simp
  show "percentage_of 0 t = Fin 0" by (rule percentage_none)
qed

lemmas sample_defs =
  example_df_def order_df_def numeric_df_def blank_df_def gap_df_def empty_col_df_def
  percentage_df_def collide_df_def text_column_def cells_of_def

lemmas cell_defs =
  columns_def is_text_def key_cell_def text_cell_def notna_cell_def group_keys_def
  group_count_def List.map_filter_def pass_mask_def str_lower_def lower_def lower_char_def
  less_eq_keyval_def

lemma example_dataset:
  "data_list example_df ''unit'' ''result'' =
     Inr ([PStr ''unit'', PStr ''Pass Percentage'']
          # [PStr ''A'', PFloat (Fin 50)] # [PStr ''B'', PFloat (Fin 100)] # [])"
  by (subst data_list_eq) (simp_all add: sample_defs cell_defs percentage_samples)

lemma order_dataset:
  "data_list order_df ''unit'' ''result'' =
     Inr ([PStr ''unit'', PStr ''Pass Percentage'']
          # [PStr ''A'', PFloat (Fin 0)] # [PStr ''B'', PFloat (Fin 100)] # [])"
  by (subst data_list_eq) (simp_all add: sample_defs cell_defs percentage_samples)

lemma numeric_dataset:
  "data_list numeric_df ''unit'' ''result'' =
     Inr ([PStr ''unit'', PStr ''Pass Percentage'']
          # [PFloat (Fin 9), PFloat (Fin 0)] # [PFloat (Fin 10), PFloat (Fin 100)] # [])"
proof -
  have 9: "to_float 9 = 9" using to_float_nat [of 9] by simp
  have 10: "to_float 10 = 10" using to_float_nat [of 10] by simp
  show ?thesis
    by (subst data_list_eq) (simp_all add: sample_defs cell_defs percentage_samples 9 10)
qed

lemma gap_dataset:
  "data_list gap_df ''unit'' ''r2'' =
     Inr ([PStr ''unit'', PStr ''Pass Percentage'']
          # [PStr ''A'', PFloat (Fin 100)] # [PStr ''C'', PFloat (Fin 0)] # [])"
  by (subst data_list_eq) (simp_all add: sample_defs cell_defs percentage_samples)

lemma blank_summary:
  "summary_df blank_df ''unit'' ''result''
      = Inr [\<lparr>gkey = KStr ''A'', total = 1, passes = 1, percentage = Fin 100\<rparr>]"
  by (subst summary_df_eq) (simp_all add: sample_defs cell_defs percentage_samples)

lemma gap_summary:
  "summary_df gap_df ''unit'' ''r2''
      = Inr [\<lparr>gkey = KStr ''A'', total = 1, passes = 1, percentage = Fin 100\<rparr>,
             \<lparr>gkey = KStr ''C'', total = 0, passes = 0, percentage = Fin 0\<rparr>]"
  by (subst summary_df_eq) (simp_all add: sample_defs cell_defs percentage_samples)

lemma example_summary:
  "summary_df example_df ''unit'' ''result''
      = Inr [\<lparr>gkey = KStr ''A'', total = 2, passes = 1, percentage = Fin 50\<rparr>,
             \<lparr>gkey = KStr ''B'', total = 1, passes = 1, percentage = Fin 100\<rparr>]"
  by (subst summary_df_eq) (simp_all add: sample_defs cell_defs percentage_samples numeral_2_eq_2)

lemma empty_col_raises:
  "data_list empty_col_df ''unit'' ''result'' =
     Inl (AttributeError ''Can only use .str accessor with string values!'')"
  by (simp add: data_list_def summary_df_def groupby_count_def filter_pass_def sample_defs cell_defs)

lemma percentage_key_raises:
  "data_list percentage_df ''percentage'' ''result'' =
     Inl (ValueError ''cannot insert percentage, already exists'')"
  by (simp add: data_list_def summary_df_eq sample_defs columns_def is_text_def)

subsection \<open>The pass token\<close>

lemma of_char_lower_char:
  "(of_char (lower_char c) :: nat) =
     (if 65 \<le> (of_char c :: nat) \<and> (of_char c :: nat) \<le> 90 then of_char c + 32 else of_char c)"
proof -
  have "(of_char c :: nat) < 256" by simp
  then show ?thesis by (simp add: lower_char_def less_eq_char_def)
qed

lemma lower_char_eq_iff:
  "lower_char c = t \<longleftrightarrow>
     (if 65 \<le> (of_char c :: nat) \<and> (of_char c :: nat) \<le> 90 then of_char c + 32 else of_char c)
       = (of_char t :: nat)"
  using of_char_lower_char [of c] of_char_eq_iff [of "lower_char c" t, where ?'a = nat]
  by simp

lemma char_eq_nat: "c = t \<longleftrightarrow> (of_char c :: nat) = of_char t"
  by simp

lemma lower_char_p: "lower_char c = CHR ''p'' \<longleftrightarrow> c = CHR ''p'' \<or> c = CHR ''P''"
  unfolding lower_char_eq_iff char_eq_nat [of c] by (simp split: if_splits) arith

lemma lower_char_a: "lower_char c = CHR ''a'' \<longleftrightarrow> c = CHR ''a'' \<or> c = CHR ''A''"
  unfolding lower_char_eq_iff char_eq_nat [of c] by (simp split: if_splits) arith

lemma lower_char_s: "lower_char c = CHR ''s'' \<longleftrightarrow> c = CHR ''s'' \<or> c = CHR ''S''"
  unfolding lower_char_eq_iff char_eq_nat [of c] by (simp split: if_splits) arith

lemma lower_eq_pass:
  "lower v = ''pass'' \<longleftrightarrow>
     (\<exists>a b c d. v = [a, b, c, d] \<and> a \<in> {CHR ''p'', CHR ''P''} \<and> b \<in> {CHR ''a'', CHR ''A''}
        \<and> c \<in> {CHR ''s'', CHR ''S''} \<and> d \<in> {CHR ''s'', CHR ''S''})"
proof -
  have "lower v = ''pass'' \<longleftrightarrow>
      (\<exists>a b c d. v = [a, b, c, d] \<and> lower_char a = CHR ''p'' \<and> lower_char b = CHR ''a''
         \<and> lower_char c = CHR ''s'' \<and> lower_char d = CHR ''s'')"
    unfolding lower_def by (auto simp: map_eq_Cons_conv)
  then show ?thesis
    by (simp add: lower_char_p lower_char_a lower_char_s)
qed

lemma pass_mask_iff: "pass_mask c \<longleftrightarrow> (\<exists>v. c = Some v \<and> lower v = ''pass'')"
  by (cases c) (simp_all add: pass_mask_def str_lower_def)

lemma notna_text: "is_text df col \<Longrightarrow> notna_cell df col i \<longleftrightarrow> text_cell df col i \<noteq> None"
  by (auto simp: is_text_def notna_cell_def text_cell_def split: option.splits column.splits)

subsection \<open>Order of the keys\<close>

lemma key_order:
  "KStr a \<le> KStr b \<longleftrightarrow> a \<le> b"
  "KInt i \<le> KInt j \<longleftrightarrow> i \<le> j"
  "KFloat (Fin p) \<le> KFloat (Fin q) \<longleftrightarrow> p \<le> q"
  "KBool x \<le> KBool y \<longleftrightarrow> (x \<longrightarrow> y)"
  by (auto simp: less_eq_keyval_def)

lemma data_list_keys:
  assumes "data_list df key_column col = Inr d"
  shows "tl d = map (\<lambda>k. [emit_key k, PFloat (percentage_of
                       (length (filter (\<lambda>i. key_cell df key_column i = Some k
                                \<and> pass_mask (text_cell df col i)) (index df)))
                       (group_count df key_column col k))])
              (group_keys df key_column)"
proof -
  note c = data_list_Inr_cols [OF assms]
  from c have "data_list df key_column col =
     Inr ([PStr key_column, PStr ''Pass Percentage'']
          # map (\<lambda>k. [emit_key k, PFloat (percentage_of
                       (length (filter (\<lambda>i. key_cell df key_column i = Some k
                                \<and> pass_mask (text_cell df col i)) (index df)))
                       (group_count df key_column col k))])
              (group_keys df key_column))"
    by (intro data_list_eq) simp_all
  with assms show ?thesis by auto
qed

subsection \<open>The dataset of a data column\<close>

text \<open>
  Claim C1, as stated for every table, fails. A data column whose cells are all empty is
  read as float64, and line 22 raises \<open>AttributeError\<close> on it; with a key column called
  \<open>percentage\<close>, \<^verbatim>\<open>reset_index\<close> raises \<open>ValueError\<close>. In both cases the columns are in
  the frame and no dataset comes out.
\<close>

theorem dataset_for_every_table_counterexample:
  "''unit'' \<in> set (columns empty_col_df) \<and> ''result'' \<in> set (columns empty_col_df)
   \<and> data_list empty_col_df ''unit'' ''result'' =
       Inl (AttributeError ''Can only use .str accessor with string values!'')
   \<and> ''percentage'' \<in> set (columns percentage_df) \<and> ''result'' \<in> set (columns percentage_df)
   \<and> data_list percentage_df ''percentage'' ''result'' =
       Inl (ValueError ''cannot insert percentage, already exists'')"
  by (simp add: empty_col_raises percentage_key_raises)
     (simp add: columns_def empty_col_df_def percentage_df_def)

text \<open>
  Claim C1, amended. When the data column is a text column and the key column is in the
  frame and not called \<open>percentage\<close>, the dataset is the header row
  \<open>[key_column, 'Pass Percentage']\<close> followed by one row \<open>[key value, percentage]\<close> for
  each distinct value of the key column, each value once; a missing key cell is not a
  value. The percentage of a key is \<open>passes / total * 100\<close> in float64, and 0 when the
  total is 0, where the total counts the rows of the key with a value in the data column
  and the passes those whose value is a pass. A numeric key comes out as a float. On the
  rows (A, pass), (A, fail), (B, pass) with key \<open>unit\<close> and data column \<open>result\<close> the
  dataset is the header, then \<open>['A', 50.0]\<close> and \<open>['B', 100.0]\<close>.
\<close>

theorem dataset_shape:
  assumes "key_column \<in> set (columns df)" and "is_text df col"
    and "key_column \<noteq> ''percentage''"
  shows "data_list df key_column col =
           Inr ([PStr key_column, PStr ''Pass Percentage'']
                # map (\<lambda>k. [emit_key k,
                            PFloat (percentage_of
                              (length (filter (\<lambda>i. key_cell df key_column i = Some k
                                         \<and> pass_mask (text_cell df col i)) (index df)))
                              (length (filter (\<lambda>i. key_cell df key_column i = Some k
                                         \<and> text_cell df col i \<noteq> None) (index df))))])
                    (group_keys df key_column))
       \<and> distinct (group_keys df key_column)
       \<and> set (group_keys df key_column) = {k. \<exists>i\<in>set (index df). key_cell df key_column i = Some k}
       \<and> data_list example_df ''unit'' ''result'' =
            Inr ([PStr ''unit'', PStr ''Pass Percentage'']
                 # [PStr ''A'', PFloat (Fin 50)] # [PStr ''B'', PFloat (Fin 100)] # [])"
proof (intro conjI)
  show "data_list df key_column col =
           Inr ([PStr key_column, PStr ''Pass Percentage'']
                # map (\<lambda>k. [emit_key k,
                            PFloat (percentage_of
                              (length (filter (\<lambda>i. key_cell df key_column i = Some k
                                         \<and> pass_mask (text_cell df col i)) (index df)))
                              (length (filter (\<lambda>i. key_cell df key_column i = Some k
                                         \<and> text_cell df col i \<noteq> None) (index df))))])
                    (group_keys df key_column))"
    unfolding data_list_eq [OF assms] group_count_def notna_text [OF assms(2)] ..
  show "distinct (group_keys df key_column)" by (rule distinct_group_keys)
  show "set (group_keys df key_column) = {k. \<exists>i\<in>set (index df). key_cell df key_column i = Some k}"
    by (rule set_group_keys)
  show "data_list example_df ''unit'' ''result'' =
            Inr ([PStr ''unit'', PStr ''Pass Percentage'']
                 # [PStr ''A'', PFloat (Fin 50)] # [PStr ''B'', PFloat (Fin 100)] # [])"
    by (rule example_dataset)
qed

theorem dataset_shape_witness:
  "''unit'' \<in> set (columns example_df) \<and> is_text example_df ''result''
   \<and> ''unit'' \<noteq> ''percentage''
   \<and> group_keys example_df ''unit'' = [KStr ''A'', KStr ''B'']
   \<and> data_list example_df ''unit'' ''result'' =
        Inr ([PStr ''unit'', PStr ''Pass Percentage'']
             # [PStr ''A'', PFloat (Fin 50)] # [PStr ''B'', PFloat (Fin 100)] # [])"
proof -
  have h: "''unit'' \<in> set (columns example_df)" "is_text example_df ''result''"
    "''unit'' \<noteq> ''percentage''"
    by (simp_all add: example_df_def columns_def is_text_def text_column_def)
  have k: "group_keys example_df ''unit'' = [KStr ''A'', KStr ''B'']"
    by (simp add: sample_defs cell_defs)
  note t = dataset_shape [OF h]
  show ?thesis
    by (intro conjI) (rule h(1), rule h(2), rule h(3), rule k,
        rule t [THEN conjunct2, THEN conjunct2, THEN conjunct2])
qed

subsection \<open>Bounds of a group summary\<close>

text \<open>
  Claim C2. For every group of the summary of a data column:
  \<open>0 \<le> passes \<le> total\<close>; the percentage, computed in float64 with its two roundings,
  is a finite number between 0 and 100; it is 0 when the total is 0, and it is never
  \<open>NaN\<close>. The same holds of every percentage in the emitted dataset.
\<close>

theorem summary_bounds:
  assumes "summary_df df key_column col = Inr s" and "g \<in> set s"
  shows "0 \<le> passes g \<and> passes g \<le> total g
     \<and> (\<exists>q. percentage g = Fin q \<and> 0 \<le> q \<and> q \<le> 100)
     \<and> (total g = 0 \<longrightarrow> percentage g = Fin 0)
     \<and> percentage g \<noteq> NaN
     \<and> percentage g = percentage_of (passes g) (total g)
     \<and> (\<forall>d. data_list df key_column col = Inr d \<longrightarrow>
           (\<forall>row\<in>set (tl d). \<exists>k q. row = [k, PFloat (Fin q)] \<and> 0 \<le> q \<and> q \<le> 100))"
proof -
  note b = group_bounds [OF assms]
  from b(2) have n: "percentage g \<noteq> NaN" by auto
  note p = summary_member(4) [OF assms]
  have e: "\<forall>d. data_list df key_column col = Inr d \<longrightarrow>
           (\<forall>row\<in>set (tl d). \<exists>k q. row = [k, PFloat (Fin q)] \<and> 0 \<le> q \<and> q \<le> 100)"
  proof (intro allI impI ballI)
    fix d row
    assume d: "data_list df key_column col = Inr d" and row: "row \<in> set (tl d)"
    from data_list_rows [OF d] assms(1)
    have "d = [PStr key_column, PStr ''Pass Percentage'']
                 # map (\<lambda>g. [emit_key (gkey g), PFloat (percentage g)]) s" by auto
    with row obtain g' where g': "g' \<in> set s" "row = [emit_key (gkey g'), PFloat (percentage g')]"
      by auto
    from group_bounds(2) [OF assms(1) g'(1)] g'(2)
    show "\<exists>k q. row = [k, PFloat (Fin q)] \<and> 0 \<le> q \<and> q \<le> 100" by auto
  qed
  from b n p e show ?thesis by simp
qed

theorem summary_bounds_witness:
  "summary_df gap_df ''unit'' ''r2''
      = Inr [\<lparr>gkey = KStr ''A'', total = 1, passes = 1, percentage = Fin 100\<rparr>,
             \<lparr>gkey = KStr ''C'', total = 0, passes = 0, percentage = Fin 0\<rparr>]
   \<and> total \<lparr>gkey = KStr ''C'', total = 0, passes = 0, percentage = Fin 0\<rparr> = 0
   \<and> (\<exists>q. percentage \<lparr>gkey = KStr ''C'', total = 0, passes = 0, percentage = Fin 0\<rparr> = Fin q
          \<and> 0 \<le> q \<and> q \<le> 100)"
proof -
  let ?a = "\<lparr>gkey = KStr ''A'', total = 1, passes = 1, percentage = Fin 100\<rparr>"
  let ?c = "\<lparr>gkey = KStr ''C'', total = 0, passes = 0, percentage = Fin 0\<rparr>"
  have h: "summary_df gap_df ''unit'' ''r2'' = Inr [?a, ?c]"
    by (rule gap_summary)
  have i: "?c \<in> set [?a, ?c]" by simp
  note t = summary_bounds [OF h i]
  have z: "total ?c = 0" by simp
  have e: "\<exists>q. percentage ?c = Fin q \<and> 0 \<le> q \<and> q \<le> 100"
    by (rule t [THEN conjunct2, THEN conjunct2, THEN conjunct1])
  show ?thesis by (intro conjI) (rule h, rule z, rule e)
qed

subsection \<open>What counts as a pass\<close>

text \<open>
  Claim C3. The passes of a group are the rows of that key whose data value, in lower
  case, is \<open>pass\<close>: exactly the sixteen spellings of \<open>pass\<close> in capitals and small
  letters. \<open>Pass\<close>, \<open>PASS\<close> and \<open>pass\<close> are counted; \<open>Fail\<close>, \<open>fail\<close>, the empty
  string, \<open>N/A\<close> and a missing value are not.
\<close>

theorem pass_token:
  assumes "summary_df df key_column col = Inr s" and "g \<in> set s"
  shows "passes g =
           length (filter (\<lambda>i. key_cell df key_column i = Some (gkey g)
                            \<and> (\<exists>v. text_cell df col i = Some v \<and> lower v = ''pass'')) (index df))
     \<and> (\<forall>v. lower v = ''pass'' \<longleftrightarrow>
           (\<exists>a b c d. v = [a, b, c, d] \<and> a \<in> {CHR ''p'', CHR ''P''} \<and> b \<in> {CHR ''a'', CHR ''A''}
              \<and> c \<in> {CHR ''s'', CHR ''S''} \<and> d \<in> {CHR ''s'', CHR ''S''}))
     \<and> (\<forall>c\<in>{Some ''Pass'', Some ''PASS'', Some ''pass''}. pass_mask c)
     \<and> (\<forall>c\<in>{Some ''Fail'', Some ''fail'', Some '''', Some ''N/A'', None}. \<not> pass_mask c)"
proof -
  have 1: "passes g =
           length (filter (\<lambda>i. key_cell df key_column i = Some (gkey g)
                            \<and> (\<exists>v. text_cell df col i = Some v \<and> lower v = ''pass'')) (index df))"
    using summary_member(3) [OF assms] by (simp add: pass_mask_iff)
  have 2: "\<forall>v. lower v = ''pass'' \<longleftrightarrow>
           (\<exists>a b c d. v = [a, b, c, d] \<and> a \<in> {CHR ''p'', CHR ''P''} \<and> b \<in> {CHR ''a'', CHR ''A''}
              \<and> c \<in> {CHR ''s'', CHR ''S''} \<and> d \<in> {CHR ''s'', CHR ''S''})"
    by (rule allI) (rule lower_eq_pass)
  have 3: "\<forall>c\<in>{Some ''Pass'', Some ''PASS'', Some ''pass''}. pass_mask c"
    by (auto simp: pass_mask_iff lower_eq_pass)
  have 4: "\<forall>c\<in>{Some ''Fail'', Some ''fail'', Some '''', Some ''N/A'', None}. \<not> pass_mask c"
    by (auto simp: pass_mask_iff lower_eq_pass)
  show ?thesis
    by (intro conjI) (rule 1, rule 2, rule 3, rule 4)
qed

theorem pass_token_witness:
  "summary_df example_df ''unit'' ''result''
      = Inr [\<lparr>gkey = KStr ''A'', total = 2, passes = 1, percentage = Fin 50\<rparr>,
             \<lparr>gkey = KStr ''B'', total = 1, passes = 1, percentage = Fin 100\<rparr>]
   \<and> passes \<lparr>gkey = KStr ''A'', total = 2, passes = 1, percentage = Fin 50\<rparr> =
       length (filter (\<lambda>i. key_cell example_df ''unit'' i = Some (KStr ''A'')
                         \<and> (\<exists>v. text_cell example_df ''result'' i = Some v \<and> lower v = ''pass''))
                 (index example_df))
   \<and> pass_mask (Some ''PASS'')
   \<and> \<not> pass_mask (Some ''N/A'')"
proof -
  let ?a = "\<lparr>gkey = KStr ''A'', total = 2, passes = 1, percentage = Fin 50\<rparr>"
  let ?b = "\<lparr>gkey = KStr ''B'', total = 1, passes = 1, percentage = Fin 100\<rparr>"
  have h: "summary_df example_df ''unit'' ''result'' = Inr [?a, ?b]"
    by (rule example_summary)
  have i: "?a \<in> set [?a, ?b]" by simp
  note t = pass_token [OF h i]
  have p: "pass_mask (Some ''PASS'')"
    using t [THEN conjunct2, THEN conjunct2, THEN conjunct1] by simp
  have n: "\<not> pass_mask (Some ''N/A'')"
    using t [THEN conjunct2, THEN conjunct2, THEN conjunct2] by simp
  have c: "passes ?a = length (filter (\<lambda>i. key_cell example_df ''unit'' i = Some (KStr ''A'')
                         \<and> (\<exists>v. text_cell example_df ''result'' i = Some v \<and> lower v = ''pass''))
                 (index example_df))"
    using t [THEN conjunct1] by simp
  show ?thesis
    by (intro conjI) (rule h, rule c, rule p, rule n)
qed

subsection \<open>Order of the groups\<close>

text \<open>
  Claim C4, as stated, fails: on the rows (B, pass), (A, fail) the key B is seen first,
  and the dataset lists A before B.
\<close>

theorem first_seen_order_counterexample:
  "data_list order_df ''unit'' ''result'' =
      Inr ([PStr ''unit'', PStr ''Pass Percentage'']
           # [PStr ''A'', PFloat (Fin 0)] # [PStr ''B'', PFloat (Fin 100)] # [])
   \<and> first_seen_keys order_df ''unit'' = KStr ''B'' # KStr ''A'' # []
   \<and> map emit_key (group_keys order_df ''unit'')
       \<noteq> map emit_key (first_seen_keys order_df ''unit'')"
  by (simp add: order_dataset) (simp add: first_seen_keys_def sample_defs cell_defs)

text \<open>
  Claim C4, amended. The data rows of a dataset are in ascending order of the distinct
  key values, each value once: \<^verbatim>\<open>groupby\<close> sorts its keys. The order is that of the
  key column's values: Python's string order for a text column, the order of the numbers
  for a numeric column (9 before 10), \<open>False\<close> before \<open>True\<close> for a boolean one.
\<close>

theorem sorted_order:
  assumes "data_list df key_column col = Inr d"
  shows "map hd (tl d) = map emit_key (group_keys df key_column)
     \<and> sorted (group_keys df key_column) \<and> distinct (group_keys df key_column)
     \<and> set (group_keys df key_column) = {k. \<exists>i\<in>set (index df). key_cell df key_column i = Some k}
     \<and> (\<forall>a b. KStr a \<le> KStr b \<longleftrightarrow> a \<le> b)
     \<and> (\<forall>i j. KInt i \<le> KInt j \<longleftrightarrow> i \<le> j)
     \<and> (\<forall>p q. KFloat (Fin p) \<le> KFloat (Fin q) \<longleftrightarrow> p \<le> q)
     \<and> KBool False \<le> KBool True"
proof -
  have "map hd (tl d) = map emit_key (group_keys df key_column)"
    unfolding data_list_keys [OF assms] by (simp add: comp_def)
  then show ?thesis
    by (simp add: sorted_group_keys distinct_group_keys set_group_keys key_order)
qed

theorem sorted_order_witness:
  "data_list numeric_df ''unit'' ''result'' =
      Inr ([PStr ''unit'', PStr ''Pass Percentage'']
           # [PFloat (Fin 9), PFloat (Fin 0)] # [PFloat (Fin 10), PFloat (Fin 100)] # [])
   \<and> first_seen_keys numeric_df ''unit'' = KInt 10 # KInt 9 # []
   \<and> group_keys numeric_df ''unit'' = KInt 9 # KInt 10 # []
   \<and> sorted (group_keys numeric_df ''unit'')"
proof -
  have h: "data_list numeric_df ''unit'' ''result'' =
      Inr ([PStr ''unit'', PStr ''Pass Percentage'']
           # [PFloat (Fin 9), PFloat (Fin 0)] # [PFloat (Fin 10), PFloat (Fin 100)] # [])"
    by (rule numeric_dataset)
  have f: "first_seen_keys numeric_df ''unit'' = KInt 10 # KInt 9 # []"
    by (simp add: first_seen_keys_def sample_defs cell_defs)
  have g: "group_keys numeric_df ''unit'' = KInt 9 # KInt 10 # []"
    by (simp add: sample_defs cell_defs)
  note t = sorted_order [OF h]
  show ?thesis
    by (intro conjI) (rule h, rule f, rule g, rule t [THEN conjunct2, THEN conjunct1])
qed

subsection \<open>What the total counts\<close>

text \<open>
  Claim C5, as stated, fails: unit A has two rows, one with a missing \<open>result\<close>, and
  its total is 1.
\<close>

theorem total_counts_all_rows_counterexample:
  "summary_df blank_df ''unit'' ''result''
      = Inr [\<lparr>gkey = KStr ''A'', total = 1, passes = 1, percentage = Fin 100\<rparr>]
   \<and> length (filter (\<lambda>i. key_cell blank_df ''unit'' i = Some (KStr ''A'')) (index blank_df)) = 2"
  by (simp add: blank_summary) (simp add: sample_defs cell_defs)

text \<open>
  Claim C5, amended. The total of a group is the number of its rows whose data value is
  not missing (\<^verbatim>\<open>.count()\<close> leaves missing values out); it is at most the number of rows
  of the group, and equal to it when no row of the group lacks the value.
\<close>

theorem total_counts_present:
  assumes "summary_df df key_column col = Inr s" and "g \<in> set s"
  shows "total g = length (filter (\<lambda>i. key_cell df key_column i = Some (gkey g)
                              \<and> text_cell df col i \<noteq> None) (index df))
     \<and> total g \<le> length (filter (\<lambda>i. key_cell df key_column i = Some (gkey g)) (index df))
     \<and> ((\<forall>i\<in>set (index df). key_cell df key_column i = Some (gkey g) \<longrightarrow> text_cell df col i \<noteq> None)
          \<longrightarrow> total g = length (filter (\<lambda>i. key_cell df key_column i = Some (gkey g)) (index df)))"
proof -
  let ?P = "\<lambda>i. key_cell df key_column i = Some (gkey g)"
  let ?Q = "\<lambda>i. text_cell df col i \<noteq> None"
  from summary_df_Inr_cols [OF assms(1)] have tx: "is_text df col" by simp
  have t: "total g = length (filter (\<lambda>i. ?P i \<and> ?Q i) (index df))"
    using summary_member(2) [OF assms] by (simp add: group_count_def notna_text [OF tx])
  have f: "filter (\<lambda>i. ?P i \<and> ?Q i) (index df) = filter ?Q (filter ?P (index df))"
    by (simp add: conj_commute)
  have le: "total g \<le> length (filter ?P (index df))"
    unfolding t f by (rule length_filter_le)
  have eq: "(\<forall>i\<in>set (index df). ?P i \<longrightarrow> ?Q i) \<longrightarrow> total g = length (filter ?P (index df))"
  proof
    assume "\<forall>i\<in>set (index df). ?P i \<longrightarrow> ?Q i"
    then have "filter (\<lambda>i. ?P i \<and> ?Q i) (index df) = filter ?P (index df)"
      by (intro filter_cong) auto
    with t show "total g = length (filter ?P (index df))" by simp
  qed
  from t le eq show ?thesis by (intro conjI)
qed

theorem total_counts_present_witness:
  "summary_df blank_df ''unit'' ''result''
      = Inr [\<lparr>gkey = KStr ''A'', total = 1, passes = 1, percentage = Fin 100\<rparr>]
   \<and> total \<lparr>gkey = KStr ''A'', total = 1, passes = 1, percentage = Fin 100\<rparr>
       = length (filter (\<lambda>i. key_cell blank_df ''unit'' i = Some (KStr ''A'')
                           \<and> text_cell blank_df ''result'' i \<noteq> None) (index blank_df))"
proof -
  let ?a = "\<lparr>gkey = KStr ''A'', total = 1, passes = 1, percentage = Fin 100\<rparr>"
  have h: "summary_df blank_df ''unit'' ''result'' = Inr [?a]"
    by (rule blank_summary)
  have i: "?a \<in> set [?a]" by simp
  have c: "total ?a = length (filter (\<lambda>i. key_cell blank_df ''unit'' i = Some (KStr ''A'')
                           \<and> text_cell blank_df ''result'' i \<noteq> None) (index blank_df))"
    using total_counts_present [OF h i, THEN conjunct1] by simp
  show ?thesis by (intro conjI) (rule h, rule c)
qed

subsection \<open>Keys without a value in the data column\<close>

text \<open>
  Claim C6, as stated, fails: unit C has no value in column \<open>r2\<close>, and the dataset of
  \<open>r2\<close> has the row \<open>['C', 0.0]\<close>.
\<close>

theorem no_zero_row_counterexample:
  "data_list gap_df ''unit'' ''r2'' =
      Inr ([PStr ''unit'', PStr ''Pass Percentage'']
           # [PStr ''A'', PFloat (Fin 100)] # [PStr ''C'', PFloat (Fin 0)] # [])
   \<and> length (filter (\<lambda>i. key_cell gap_df ''unit'' i = Some (KStr ''C'')
                        \<and> text_cell gap_df ''r2'' i \<noteq> None) (index gap_df)) = 0"
  by (simp add: gap_dataset) (simp add: sample_defs cell_defs)

text \<open>
  Claim C6, amended. Whenever the aggregator gives a dataset for a data column (a text
  column), its data rows are the distinct values of the key column of the table, one row
  each, whatever the data column holds there; a key all of whose rows lack the data value
  gets the row with percentage 0.
\<close>

theorem every_key_gets_row:
  assumes "data_list df key_column col = Inr d"
  shows "map hd (tl d) = map emit_key (group_keys df key_column)
     \<and> distinct (group_keys df key_column)
     \<and> set (group_keys df key_column) = {k. \<exists>i\<in>set (index df). key_cell df key_column i = Some k}
     \<and> (\<forall>k. (\<exists>i\<in>set (index df). key_cell df key_column i = Some k)
              \<and> (\<forall>i\<in>set (index df). key_cell df key_column i = Some k \<longrightarrow> text_cell df col i = None)
            \<longrightarrow> [emit_key k, PFloat (Fin 0)] \<in> set (tl d))"
proof -
  let ?pc = "\<lambda>k. percentage_of
                       (length (filter (\<lambda>i. key_cell df key_column i = Some k
                                \<and> pass_mask (text_cell df col i)) (index df)))
                       (group_count df key_column col k)"
  note tl = data_list_keys [OF assms]
  from data_list_Inr_cols [OF assms] have tx: "is_text df col" by simp
  have 1: "map hd (tl d) = map emit_key (group_keys df key_column)"
    unfolding tl by (simp add: comp_def)
  have 2: "\<forall>k. (\<exists>i\<in>set (index df). key_cell df key_column i = Some k)
              \<and> (\<forall>i\<in>set (index df). key_cell df key_column i = Some k \<longrightarrow> text_cell df col i = None)
            \<longrightarrow> [emit_key k, PFloat (Fin 0)] \<in> set (tl d)"
  proof (intro allI impI)
    fix k
    assume a: "(\<exists>i\<in>set (index df). key_cell df key_column i = Some k)
              \<and> (\<forall>i\<in>set (index df). key_cell df key_column i = Some k \<longrightarrow> text_cell df col i = None)"
    then have k: "k \<in> set (group_keys df key_column)" by (simp add: set_group_keys)
    from a have "filter (\<lambda>i. key_cell df key_column i = Some k \<and> notna_cell df col i) (index df) = []"
      by (auto simp: filter_empty_conv notna_text [OF tx])
    then have t0: "group_count df key_column col k = 0" by (simp add: group_count_def)
    with pass_count_le [of df key_column k col "index df"]
    have p0: "length (filter (\<lambda>i. key_cell df key_column i = Some k
                \<and> pass_mask (text_cell df col i)) (index df)) = 0"
      by (simp add: group_count_def)
    have "?pc k = Fin 0" unfolding t0 p0 by (rule percentage_zero_total)
    with k show "[emit_key k, PFloat (Fin 0)] \<in> set (tl d)" unfolding tl by force
  qed
  show ?thesis
    by (intro conjI) (rule 1, rule distinct_group_keys, rule set_group_keys, rule 2)
qed

theorem every_key_gets_row_witness:
  "data_list gap_df ''unit'' ''r2'' =
      Inr ([PStr ''unit'', PStr ''Pass Percentage'']
           # [PStr ''A'', PFloat (Fin 100)] # [PStr ''C'', PFloat (Fin 0)] # [])
   \<and> length (filter (\<lambda>i. key_cell gap_df ''unit'' i = Some (KStr ''C'')) (index gap_df)) = 1
   \<and> length (filter (\<lambda>i. key_cell gap_df ''unit'' i = Some (KStr ''C'')
                        \<and> text_cell gap_df ''r2'' i \<noteq> None) (index gap_df)) = 0
   \<and> [emit_key (KStr ''C''), PFloat (Fin 0)] \<in> set (tl ([PStr ''unit'', PStr ''Pass Percentage'']
           # [PStr ''A'', PFloat (Fin 100)] # [PStr ''C'', PFloat (Fin 0)] # []))"
proof -
  have h: "data_list gap_df ''unit'' ''r2'' =
      Inr ([PStr ''unit'', PStr ''Pass Percentage'']
           # [PStr ''A'', PFloat (Fin 100)] # [PStr ''C'', PFloat (Fin 0)] # [])"
    by (rule gap_dataset)
  have a: "\<exists>i\<in>set (index gap_df). key_cell gap_df ''unit'' i = Some (KStr ''C'')"
    by (simp add: sample_defs cell_defs)
  have b: "\<forall>i\<in>set (index gap_df). key_cell gap_df ''unit'' i = Some (KStr ''C'')
             \<longrightarrow> text_cell gap_df ''r2'' i = None"
    by (simp add: sample_defs cell_defs)
  have c: "[emit_key (KStr ''C''), PFloat (Fin 0)] \<in> set (tl ([PStr ''unit'', PStr ''Pass Percentage'']
           # [PStr ''A'', PFloat (Fin 100)] # [PStr ''C'', PFloat (Fin 0)] # []))"
    by (rule every_key_gets_row [OF h, THEN conjunct2, THEN conjunct2, THEN conjunct2,
          THEN spec, THEN mp, OF conjI [OF a b]])
  have n1: "length (filter (\<lambda>i. key_cell gap_df ''unit'' i = Some (KStr ''C'')) (index gap_df)) = 1"
    by (simp add: sample_defs cell_defs)
  have n0: "length (filter (\<lambda>i. key_cell gap_df ''unit'' i = Some (KStr ''C'')
                        \<and> text_cell gap_df ''r2'' i \<noteq> None) (index gap_df)) = 0"
    by (simp add: sample_defs cell_defs)
  show ?thesis by (intro conjI) (rule h, rule n1, rule n0, rule c)
qed

subsection \<open>The loops of the renderer\<close>

lemma of_char_digit_char: "d < 10 \<Longrightarrow> (of_char (digit_char d) :: nat) = 48 + d"
  by (simp add: digit_char_def)

lemma str_nat_value:
  "foldl (\<lambda>a c. 10 * a + (of_char c - 48)) 0 (str_nat n) = n"
proof (induction n rule: str_nat.induct)
  case (1 n)
  show ?case
  proof (cases "n < 10")
    case True
    then show ?thesis by (simp add: str_nat.simps [of n] of_char_digit_char)
  next
    case False
    have m: "n mod 10 < 10" by simp
    from False 1 have "foldl (\<lambda>a c. 10 * a + (of_char c - 48)) 0 (str_nat (n div 10)) = n div 10"
      by simp
    with False show ?thesis
      by (simp add: str_nat.simps [of n] of_char_digit_char [OF m])
  qed
qed

lemma str_nat_inj:
  assumes "str_nat m = str_nat n"
  shows "m = n"
proof -
  have "m = foldl (\<lambda>a c. 10 * a + (of_char c - 48)) 0 (str_nat m)"
    by (rule str_nat_value [symmetric])
  also have "\<dots> = foldl (\<lambda>a c. 10 * a + (of_char c - 48)) 0 (str_nat n)"
    by (simp only: assms)
  also have "\<dots> = n" by (rule str_nat_value)
  finally show ?thesis .
qed

lemma chart_id_inj: "chart_id i = chart_id j \<Longrightarrow> i = j"
  by (simp add: chart_id_def str_nat_inj)

lemma distinct_chart_ids: "distinct (map chart_id [0..<n])"
  by (simp add: distinct_map inj_on_def) (blast dest: chart_id_inj)

lemma upt_shift: "[i..<i + length (c # cols)] = i # [Suc i..<Suc i + length cols]"
  by (subst upt_rec) simp

lemma div_loop_eq:
  "div_loop i cols html = html @ concat (map (\<lambda>j. chart_div (chart_id j)) [i..<i + length cols])"
proof (induction cols arbitrary: i html)
  case Nil
  show ?case by simp
next
  case (Cons c cols)
  show ?case unfolding upt_shift by (simp add: Cons.IH)
qed

lemma script_loop_eq:
  assumes "map cd cols = map Some ds"
  shows "script_loop B cd key i cols html =
     Inr (html @ concat (map (\<lambda>(j, col, d). chart_script key col (chart_id j) (str_data B d))
                          (zip [i..<i + length cols] (zip cols ds))))"
  using assms
proof (induction cols arbitrary: i html ds)
  case Nil
  then show ?case by simp
next
  case (Cons c cols)
  from Cons.prems obtain d ds' where ds: "ds = d # ds'" "cd c = Some d" "map cd cols = map Some ds'"
    by (cases ds) auto
  show ?case
    unfolding upt_shift ds(1) by (simp add: ds(2) Cons.IH [OF ds(3)])
qed

lemma chart_data_loop_dom:
  "chart_data_loop df key cols cd = Inr cd' \<Longrightarrow> dom cd \<subseteq> dom cd'"
proof (induction cols arbitrary: cd)
  case Nil
  then show ?case by simp
next
  case (Cons c cols)
  from Cons.prems obtain d where d: "data_list df key c = Inr d"
    and r: "chart_data_loop df key cols (cd(c \<mapsto> d)) = Inr cd'"
    by (auto split: sum.splits)
  have "dom (cd(c \<mapsto> d)) \<subseteq> dom cd'" by (rule Cons.IH [OF r])
  then show ?case by simp
qed

lemma chart_data_loop_Inr:
  assumes "chart_data_loop df key cols cd = Inr cd'"
    and "\<forall>c d. cd c = Some d \<longrightarrow> data_list df key c = Inr d"
  shows "(\<forall>c d. cd' c = Some d \<longrightarrow> data_list df key c = Inr d) \<and> set cols \<subseteq> dom cd'"
  using assms
proof (induction cols arbitrary: cd)
  case Nil
  then show ?case by simp
next
  case (Cons c cols)
  from Cons.prems(1) obtain d where d: "data_list df key c = Inr d"
    and r: "chart_data_loop df key cols (cd(c \<mapsto> d)) = Inr cd'"
    by (auto split: sum.splits)
  have inv: "\<forall>c' d'. (cd(c \<mapsto> d)) c' = Some d' \<longrightarrow> data_list df key c' = Inr d'"
    using Cons.prems(2) d by auto
  note ih = Cons.IH [OF r inv]
  from chart_data_loop_dom [OF r] have "c \<in> dom cd'" by auto
  with ih show ?case by simp
qed

lemma chart_data_loop_total:
  assumes "\<forall>c\<in>set cols. \<exists>d. data_list df key c = Inr d"
  shows "\<exists>cd'. chart_data_loop df key cols cd = Inr cd'"
  using assms
proof (induction cols arbitrary: cd)
  case Nil
  then show ?case by simp
next
  case (Cons c cols)
  from Cons.prems obtain d where d: "data_list df key c = Inr d" by auto
  from Cons.prems have "\<forall>c\<in>set cols. \<exists>d. data_list df key c = Inr d" by simp
  from Cons.IH [OF this, of "cd(c \<mapsto> d)"]
  obtain cd' where "chart_data_loop df key cols (cd(c \<mapsto> d)) = Inr cd'" ..
  with d show ?case by (intro exI [of _ cd']) simp
qed

lemma build_html_form:
  assumes "build_html B df key cols = Inr html"
  shows "\<exists>ds. map (data_list df key) cols = map Inr ds
     \<and> html = html_head
              @ concat (map (\<lambda>(i, col, d). chart_script key col (chart_id i) (str_data B d))
                          (zip [0..<length cols] (zip cols ds)))
              @ html_style
              @ concat (map (\<lambda>i. chart_div (chart_id i)) [0..<length cols])
              @ html_tail"
proof -
  from assms obtain cd where cd: "chart_data_loop df key cols Map.empty = Inr cd"
    by (auto simp: build_html_def split: sum.splits)
  from chart_data_loop_Inr [OF cd]
  have inv: "\<forall>c d. cd c = Some d \<longrightarrow> data_list df key c = Inr d" and dm: "set cols \<subseteq> dom cd"
    by simp_all
  define ds where "ds = map (\<lambda>c. the (cd c)) cols"
  have m: "map cd cols = map Some ds"
    using dm by (auto simp: ds_def dom_def subset_iff)
  have dl: "map (data_list df key) cols = map Inr ds"
    using inv dm by (auto simp: ds_def dom_def subset_iff)
  from assms have "html = html_head
              @ concat (map (\<lambda>(i, col, d). chart_script key col (chart_id i) (str_data B d))
                          (zip [0..<length cols] (zip cols ds)))
              @ html_style
              @ concat (map (\<lambda>i. chart_div (chart_id i)) [0..<length cols])
              @ html_tail"
    by (simp add: build_html_def cd script_loop_eq [OF m] div_loop_eq)
  with dl show ?thesis by blast
qed

lemma build_html_ok:
  assumes "key \<in> set (columns df)" "\<forall>c\<in>set cols. is_text df c" "key \<noteq> ''percentage''"
  shows "\<exists>html. build_html B df key cols = Inr html"
proof -
  have "\<forall>c\<in>set cols. \<exists>d. data_list df key c = Inr d"
    using data_list_eq [OF assms(1) _ assms(3)] assms(2) by blast
  from chart_data_loop_total [OF this, of Map.empty]
  obtain cd where cd: "chart_data_loop df key cols Map.empty = Inr cd" by blast
  from chart_data_loop_Inr [OF cd] have dm: "set cols \<subseteq> dom cd" by simp
  define ds where "ds = map (\<lambda>c. the (cd c)) cols"
  have m: "map cd cols = map Some ds"
    using dm by (auto simp: ds_def dom_def subset_iff)
  show ?thesis
    by (simp add: build_html_def cd script_loop_eq [OF m])
qed


lemma create_refused:
  assumes "build_html B df key cols = Inr html" and "unwritable w out = Some reason"
  shows "create_google_charts_html B df key cols out w =
     SysExit 1 (print_err (err_mark @ '' Error writing to file '' @ out @ '': '' @ reason) w)"
  using assms by (simp add: create_google_charts_html_def write_file_def)

lemma concat_last_ex: "last xs = y \<Longrightarrow> xs \<noteq> [] \<Longrightarrow> \<exists>pre. concat xs = pre @ y"
proof -
  assume "last xs = y" "xs \<noteq> []"
  then have "xs = butlast xs @ [y]" by (metis append_butlast_last_id)
  then have "concat xs = concat (butlast xs) @ y" by (metis concat.simps concat_append append_Nil2)
  then show ?thesis by blast
qed

lemma chart_script_start:
  "\<exists>post. chart_script key col cid d =
      ''\<newline>      google.charts.setOnLoadCallback('' @ draw_name col @ post"
  unfolding chart_script_def by simp

lemma chart_script_end:
  "\<exists>pre. chart_script key col cid d = pre
     @ ''        var chart = new google.visualization.BarChart(document.getElementById(''
     @ quoted cid @ ''));\<newline>        chart.draw(data, options);\<newline>      }\<newline>''"
proof -
  have e: "draw_directive cid =
      ''        var chart = new google.visualization.BarChart(document.getElementById(''
     @ quoted cid @ ''));\<newline>        chart.draw(data, options);\<newline>      }\<newline>''"
    by (simp add: draw_directive_def)
  have "\<exists>pre. chart_script key col cid d = pre @ draw_directive cid"
    unfolding chart_script_def by (rule concat_last_ex) simp_all
  then show ?thesis unfolding e .
qed

subsection \<open>Column validation\<close>

lemma check_columns_ok:
  "set cols \<subseteq> set (columns df) \<Longrightarrow> check_columns B df cols w = Returned w"
  by (induction cols) auto

lemma check_columns_missing:
  assumes "\<not> set cols \<subseteq> set (columns df)"
  shows "\<exists>pre c post. cols = pre @ c # post \<and> set pre \<subseteq> set (columns df)
           \<and> c \<notin> set (columns df)
           \<and> check_columns B df cols w =
               SysExit 1
                 (print_err (''Available columns are: '' @ str_list (repr_str B) (columns df))
                   (print_err (err_mark @ '' Error: Column '' @ quoted c
                                @ '' not found in the CSV file.'') w))"
  using assms
proof (induction cols)
  case Nil
  then show ?case by simp
next
  case (Cons a cols)
  show ?case
  proof (cases "a \<in> set (columns df)")
    case False
    show ?thesis
      apply (rule exI [of _ "[]"], rule exI [of _ a], rule exI [of _ cols])
      using False apply simp
      done
  next
    case True
    with Cons.prems have "\<not> set cols \<subseteq> set (columns df)" by simp
    from Cons.IH [OF this] obtain pre c post where
      p: "cols = pre @ c # post" "set pre \<subseteq> set (columns df)" "c \<notin> set (columns df)"
      "check_columns B df cols w =
               SysExit 1
                 (print_err (''Available columns are: '' @ str_list (repr_str B) (columns df))
                   (print_err (err_mark @ '' Error: Column '' @ quoted c
                                @ '' not found in the CSV file.'') w))"
      by blast
    show ?thesis
      apply (rule exI [of _ "a # pre"], rule exI [of _ c], rule exI [of _ post])
      using True p apply simp
      done
  qed
qed

text \<open>
  Claim C7. When the CSV file was read and the key column or one of the requested data
  columns is not in its header, \<^verbatim>\<open>main\<close> ends with exit status 1; standard error gets
  two lines, the first naming the first missing column (in the order key column, then
  data columns), the second listing all columns of the file; nothing is aggregated and
  no file is written: the files and standard output are as before.
\<close>

theorem missing_column:
  assumes "read_csv w (arg_csv_file a) = Parsed df"
    and "\<not> set (arg_key_column a # arg_data_columns a) \<subseteq> set (columns df)"
  shows "\<exists>pre c post. arg_key_column a # arg_data_columns a = pre @ c # post
           \<and> set pre \<subseteq> set (columns df) \<and> c \<notin> set (columns df)
           \<and> main B read_csv a w =
               SysExit 1
                 (print_err (''Available columns are: '' @ str_list (repr_str B) (columns df))
                   (print_err (err_mark @ '' Error: Column '' @ quoted c
                                @ '' not found in the CSV file.'') w))
           \<and> exit_code (main B read_csv a w) = 1
           \<and> files (world_of (main B read_csv a w)) = files w
           \<and> stdout (world_of (main B read_csv a w)) = stdout w
           \<and> stderr (world_of (main B read_csv a w)) =
               stderr w @ [err_mark @ '' Error: Column '' @ quoted c @ '' not found in the CSV file.'',
                           ''Available columns are: '' @ str_list (repr_str B) (columns df)]"
proof -
  from check_columns_missing [OF assms(2), of B w] obtain pre c post where
    p: "arg_key_column a # arg_data_columns a = pre @ c # post"
      "set pre \<subseteq> set (columns df)" "c \<notin> set (columns df)"
      "check_columns B df (arg_key_column a # arg_data_columns a) w =
               SysExit 1
                 (print_err (''Available columns are: '' @ str_list (repr_str B) (columns df))
                   (print_err (err_mark @ '' Error: Column '' @ quoted c
                                @ '' not found in the CSV file.'') w))"
    by blast
  have m: "main B read_csv a w = SysExit 1
                 (print_err (''Available columns are: '' @ str_list (repr_str B) (columns df))
                   (print_err (err_mark @ '' Error: Column '' @ quoted c
                                @ '' not found in the CSV file.'') w))"
    by (simp add: main_def assms(1) p(4) del: check_columns.simps)
  show ?thesis
    by (rule exI [of _ pre], rule exI [of _ c], rule exI [of _ post])
       (simp add: p(1,2,3) m print_err_def)
qed

theorem missing_column_witness:
  "\<not> set (arg_key_column missing_args # arg_data_columns missing_args) \<subseteq> set (columns example_df)
   \<and> (\<exists>pre c post. arg_key_column missing_args # arg_data_columns missing_args = pre @ c # post
           \<and> set pre \<subseteq> set (columns example_df) \<and> c \<notin> set (columns example_df)
           \<and> exit_code (main sample_builtins (\<lambda>w p. Parsed example_df) missing_args fresh_world) = 1
           \<and> files (world_of (main sample_builtins (\<lambda>w p. Parsed example_df) missing_args fresh_world))
                = files fresh_world)
   \<and> main sample_builtins (\<lambda>w p. Parsed example_df) missing_args fresh_world =
       SysExit 1 (fresh_world\<lparr>stderr :=
          [err_mark @ '' Error: Column '' @ quoted ''speed'' @ '' not found in the CSV file.'',
           ''Available columns are: '' @ ''['' @ quoted ''unit'' @ '', '' @ quoted ''result'' @ '']'']\<rparr>)"
proof -
  have h1: "(\<lambda>w p. Parsed example_df) fresh_world (arg_csv_file missing_args) = Parsed example_df"
    by simp
  have h2: "\<not> set (arg_key_column missing_args # arg_data_columns missing_args)
               \<subseteq> set (columns example_df)"
    by (simp add: missing_args_def example_df_def columns_def)
  from missing_column [of "\<lambda>w p. Parsed example_df" fresh_world missing_args example_df sample_builtins, OF h1 h2]
  have e: "\<exists>pre c post. arg_key_column missing_args # arg_data_columns missing_args = pre @ c # post
           \<and> set pre \<subseteq> set (columns example_df) \<and> c \<notin> set (columns example_df)
           \<and> exit_code (main sample_builtins (\<lambda>w p. Parsed example_df) missing_args fresh_world) = 1
           \<and> files (world_of (main sample_builtins (\<lambda>w p. Parsed example_df) missing_args fresh_world))
                = files fresh_world"
    by blast
  have c: "main sample_builtins (\<lambda>w p. Parsed example_df) missing_args fresh_world =
       SysExit 1 (fresh_world\<lparr>stderr :=
          [err_mark @ '' Error: Column '' @ quoted ''speed'' @ '' not found in the CSV file.'',
           ''Available columns are: '' @ ''['' @ quoted ''unit'' @ '', '' @ quoted ''result'' @ '']'']\<rparr>)"
    by (simp add: main_def missing_args_def example_df_def columns_def sample_builtins_def
        print_err_def fresh_world_def str_list_def)
  show ?thesis by (intro conjI) (rule h2, rule e, rule c)
qed

subsection \<open>Names of the drawing functions\<close>




subsection \<open>A path that cannot be written\<close>

text \<open>
  Claim C9. When a run reaches the write (the CSV file was read, the requested columns
  are there, the page was built) and opening the output path for writing fails, \<^verbatim>\<open>main\<close>
  ends with exit status 1; standard error gets one line that names the output path and
  gives the reason the operating system gave; no file is created or changed, at that path
  or any other, and nothing goes to standard output.
\<close>

theorem write_error:
  assumes "read_csv w (arg_csv_file a) = Parsed df"
    and "set (arg_key_column a # arg_data_columns a) \<subseteq> set (columns df)"
    and "build_html B df (arg_key_column a) (arg_data_columns a) = Inr html"
    and "unwritable w (arg_output a) = Some reason"
  shows "main B read_csv a w =
           SysExit 1 (print_err (err_mark @ '' Error writing to file '' @ arg_output a
                                  @ '': '' @ reason) w)
     \<and> exit_code (main B read_csv a w) = 1
     \<and> files (world_of (main B read_csv a w)) = files w
     \<and> stdout (world_of (main B read_csv a w)) = stdout w
     \<and> stderr (world_of (main B read_csv a w)) =
          stderr w @ [err_mark @ '' Error writing to file '' @ arg_output a @ '': '' @ reason]"
proof -
  have m: "main B read_csv a w =
           SysExit 1 (print_err (err_mark @ '' Error writing to file '' @ arg_output a
                                  @ '': '' @ reason) w)"
    by (simp add: main_def assms(1) check_columns_ok [OF assms(2)]
          create_refused [OF assms(3) assms(4)] del: check_columns.simps)
  show ?thesis unfolding m by (simp add: print_err_def)
qed

theorem write_error_witness:
  "set (arg_key_column sample_args # arg_data_columns sample_args) \<subseteq> set (columns example_df)
   \<and> (\<exists>html. build_html sample_builtins example_df (arg_key_column sample_args)
                 (arg_data_columns sample_args) = Inr html)
   \<and> unwritable locked_world (arg_output sample_args)
        = Some (''[Errno 2] No such file or directory: '' @ quoted ''out/charts.html'')
   \<and> main sample_builtins (\<lambda>w p. Parsed example_df) sample_args locked_world =
        SysExit 1 (locked_world\<lparr>stderr :=
          [err_mark @ '' Error writing to file out/charts.html: ''
             @ ''[Errno 2] No such file or directory: '' @ quoted ''out/charts.html'']\<rparr>)
   \<and> files (world_of (main sample_builtins (\<lambda>w p. Parsed example_df) sample_args locked_world))
        = Map.empty"
proof -
  have r: "(\<lambda>w p. Parsed example_df) locked_world (arg_csv_file sample_args) = Parsed example_df"
    by simp
  have c: "set (arg_key_column sample_args # arg_data_columns sample_args) \<subseteq> set (columns example_df)"
    by (simp add: sample_args_def example_df_def columns_def)
  have k: "arg_key_column sample_args \<in> set (columns example_df)"
    and x: "\<forall>c\<in>set (arg_data_columns sample_args). is_text example_df c"
    and p: "arg_key_column sample_args \<noteq> ''percentage''"
    by (simp_all add: sample_args_def example_df_def columns_def is_text_def text_column_def)
  from build_html_ok [OF k x p] obtain html where
    h: "build_html sample_builtins example_df (arg_key_column sample_args)
          (arg_data_columns sample_args) = Inr html" by blast
  have u: "unwritable locked_world (arg_output sample_args)
        = Some (''[Errno 2] No such file or directory: '' @ quoted ''out/charts.html'')"
    by (simp add: sample_args_def locked_world_def)
  note t = write_error [of "\<lambda>w p. Parsed example_df" locked_world sample_args example_df
      sample_builtins html, OF r c h u]
  have m: "main sample_builtins (\<lambda>w p. Parsed example_df) sample_args locked_world =
        SysExit 1 (locked_world\<lparr>stderr :=
          [err_mark @ '' Error writing to file out/charts.html: ''
             @ ''[Errno 2] No such file or directory: '' @ quoted ''out/charts.html'']\<rparr>)"
    using t [THEN conjunct1] by (simp add: print_err_def sample_args_def locked_world_def)
  have f: "files (world_of (main sample_builtins (\<lambda>w p. Parsed example_df) sample_args locked_world))
        = Map.empty"
    using t [THEN conjunct2, THEN conjunct2, THEN conjunct1] by (simp add: locked_world_def)
  have e: "\<exists>html. build_html sample_builtins example_df (arg_key_column sample_args)
                 (arg_data_columns sample_args) = Inr html"
    using h by (rule exI)
  show ?thesis by (intro conjI) (rule c, rule e, rule u, rule m, rule f)
qed

subsection \<open>Containers of the charts\<close>

text \<open>
  Claim C10. Whenever the page is built for \<open>n\<close> requested data columns, whatever
  their names (repeated names included), it is the head, one block per column, the
  style, then exactly \<open>n\<close> container lines with the ids \<open>chart_div_0\<close> to
  \<open>chart_div_(n-1)\<close>, and the tail; the ids come from the position in the list and are
  pairwise distinct; the block at position \<open>i\<close> ends with the directive that draws into
  the element of id \<open>chart_div_i\<close>.
\<close>

theorem container_ids:
  assumes "build_html B df key_column data_columns = Inr html"
  shows \<open>(\<exists>ds. map (data_list df key_column) data_columns = map Inr ds
          \<and> html = html_head
                   @ concat (map (\<lambda>(i, col, d). chart_script key_column col (chart_id i) (str_data B d))
                               (zip [0..<length data_columns] (zip data_columns ds)))
                   @ html_style
                   @ concat (map (\<lambda>i. chart_div (chart_id i)) [0..<length data_columns])
                   @ html_tail)
     \<and> length (map (\<lambda>i. chart_div (chart_id i)) [0..<length data_columns]) = length data_columns
     \<and> distinct (map chart_id [0..<length data_columns])
     \<and> (\<forall>i. chart_div (chart_id i) =
            ''<div id="chart_div_'' @ str_nat i @ ''" class="chart-container"></div>\<newline>'')
     \<and> (\<forall>i col d. \<exists>pre. chart_script key_column col (chart_id i) d = pre
            @ ''        var chart = new google.visualization.BarChart(document.getElementById(''
            @ quoted (''chart_div_'' @ str_nat i)
            @ ''));\<newline>        chart.draw(data, options);\<newline>      }\<newline>'')\<close>
proof -
  have 4: \<open>\<forall>i. chart_div (chart_id i) =
            ''<div id="chart_div_'' @ str_nat i @ ''" class="chart-container"></div>\<newline>''\<close>
    by (simp add: chart_div_def chart_id_def)
  have 5: "\<forall>i col d. \<exists>pre. chart_script key_column col (chart_id i) d = pre
            @ ''        var chart = new google.visualization.BarChart(document.getElementById(''
            @ quoted (''chart_div_'' @ str_nat i)
            @ ''));\<newline>        chart.draw(data, options);\<newline>      }\<newline>''"
    using chart_script_end [of key_column _ "chart_id _"] unfolding chart_id_def by blast
  show ?thesis
    by (intro conjI) (rule build_html_form [OF assms], simp, rule distinct_chart_ids, rule 4, rule 5)
qed

theorem container_ids_witness:
  "(\<exists>html ds. build_html sample_builtins example_df ''unit'' [''result'', ''result''] = Inr html
      \<and> map (data_list example_df ''unit'') [''result'', ''result''] = map Inr ds
      \<and> html = html_head
           @ concat (map (\<lambda>(i, col, d). chart_script ''unit'' col (chart_id i) (str_data sample_builtins d))
                       (zip [0..<length [''result'', ''result'']] (zip [''result'', ''result''] ds)))
           @ html_style
           @ concat (map (\<lambda>i. chart_div (chart_id i)) [0..<length [''result'', ''result'']])
           @ html_tail)
   \<and> distinct (map chart_id [0..<length [''result'', ''result'']])
   \<and> map chart_id [0..<2] = [''chart_div_0'', ''chart_div_1'']"
proof -
  have k: "''unit'' \<in> set (columns example_df)"
    and c: "\<forall>c\<in>set [''result'', ''result'']. is_text example_df c"
    and p: "''unit'' \<noteq> ''percentage''"
    by (simp_all add: example_df_def columns_def is_text_def text_column_def)
  from build_html_ok [OF k c p] obtain html where
    h: "build_html sample_builtins example_df ''unit'' [''result'', ''result''] = Inr html"
    by blast
  note t = container_ids [OF h]
  from t [THEN conjunct1] obtain ds where
    d: "map (data_list example_df ''unit'') [''result'', ''result''] = map Inr ds
      \<and> html = html_head
           @ concat (map (\<lambda>(i, col, d). chart_script ''unit'' col (chart_id i) (str_data sample_builtins d))
                       (zip [0..<length [''result'', ''result'']] (zip [''result'', ''result''] ds)))
           @ html_style
           @ concat (map (\<lambda>i. chart_div (chart_id i)) [0..<length [''result'', ''result'']])
           @ html_tail" ..
  have e: "map chart_id [0..<2] = [''chart_div_0'', ''chart_div_1'']"
    by code_simp
  have x: "\<exists>html ds. build_html sample_builtins example_df ''unit'' [''result'', ''result''] = Inr html
      \<and> map (data_list example_df ''unit'') [''result'', ''result''] = map Inr ds
      \<and> html = html_head
           @ concat (map (\<lambda>(i, col, d). chart_script ''unit'' col (chart_id i) (str_data sample_builtins d))
                       (zip [0..<length [''result'', ''result'']] (zip [''result'', ''result''] ds)))
           @ html_style
           @ concat (map (\<lambda>i. chart_div (chart_id i)) [0..<length [''result'', ''result'']])
           @ html_tail"
    by (rule exI [of _ html], rule exI [of _ ds], rule conjI [OF h d])
  show ?thesis
    by (intro conjI)
       (rule x, rule t [THEN conjunct2, THEN conjunct2, THEN conjunct1], rule e)
qed

end
